theory Spec2Isabelle
  imports Complex_Main "HOL-Library.Sublist"
begin

section \<open>Action sheet (src/components/BottomSheet.tsx)\<close>

subsection \<open>Data model\<close>

text \<open>
  \<^verbatim>\<open>BottomSheetActionType\<close>. The optional callback is a function on the outside world
  \<open>'w\<close>; an absent optional boolean is \<open>None\<close> (falsy in the source).
\<close>

record 'w BottomSheetActionType =
  action_text :: string
  action_key :: string
  iconType :: "string option"
  callback :: "('w \<Rightarrow> 'w) option"
  danger :: "bool option"
  centered :: "bool option"
  description :: "string option"
  dismissSheetOnPress :: "bool option"

text \<open>
  \<^verbatim>\<open>BottomSheetSectionType\<close> is a union tagged by the field \<^verbatim>\<open>expandable\<close>:
  key and actions for both, text, icon and description for the expandable one.
\<close>

datatype 'w BottomSheetSectionType =
  DefaultSection string "'w BottomSheetActionType list"
| ExpandableSection string "'w BottomSheetActionType list" string "string option" "string option"

fun expandable :: "'w BottomSheetSectionType \<Rightarrow> bool" where
  "expandable (DefaultSection k as) = False"
| "expandable (ExpandableSection k as t i d) = True"

fun key :: "'w BottomSheetSectionType \<Rightarrow> string" where
  "key (DefaultSection k as) = k"
| "key (ExpandableSection k as t i d) = k"

text \<open>
  An animated section is the section together with its own \<^verbatim>\<open>Animated.Value\<close>. The
  field \<open>animationValue\<close> holds the value the section is driven to: the initial value
  given to the constructor, then the \<^verbatim>\<open>toValue\<close> of the last timing animation started
  on it. The interpolation in between (250 ms) is not modelled.
\<close>

record 'w animatedSection =
  sec :: "'w BottomSheetSectionType"
  animationValue :: real

text \<open>JavaScript truthiness of an optional boolean.\<close>

fun truthy_flag :: "bool option \<Rightarrow> bool" where
  "truthy_flag None = False"
| "truthy_flag (Some b) = b"

subsection \<open>Operations\<close>

text \<open>\<^verbatim>\<open>ActionItem.onPress\<close>: the callback when there is one, then the dismissal when flagged.\<close>

definition onPress :: "'w BottomSheetActionType \<Rightarrow> ('w \<Rightarrow> 'w) \<Rightarrow> 'w \<Rightarrow> 'w" where
  "onPress action dismissBottomSheet w =
     (let w1 = (case callback action of Some f \<Rightarrow> f w | None \<Rightarrow> w)
      in if truthy_flag (dismissSheetOnPress action) then dismissBottomSheet w1 else w1)"

text \<open>The \<^verbatim>\<open>useMemo\<close> that builds \<^verbatim>\<open>animatedSections\<close>: a fresh value 0 for each section.\<close>

definition animatedSections :: "'w BottomSheetSectionType list \<Rightarrow> 'w animatedSection list" where
  "animatedSections sections =
     map (\<lambda>s. \<lparr>sec = s, animationValue = 0\<rparr>) sections"

definition contentHeight :: "real \<Rightarrow> real \<Rightarrow> real" where
  "contentHeight titleHeight listHeight = titleHeight + listHeight"

text \<open>
  \<^verbatim>\<open>snapPoints\<close>, with the window height as a parameter. Heights are real numbers here:
  the rounding of the source's double-precision arithmetic is not modelled.
\<close>

definition snapPoints :: "real \<Rightarrow> real \<Rightarrow> real list" where
  "snapPoints screenHeight c =
     (let maxLimit = 0.85 * screenHeight
      in if c = 0 then [1]
         else if c < maxLimit then [c] else [maxLimit])"

text \<open>
  \<^verbatim>\<open>expandSection\<close>: one timing animation for each expandable section, to 1 for the
  section whose key is the selected one and to 0 otherwise, all started together.
  Sections that are not expandable get no animation.
\<close>

definition expandSection :: "string \<Rightarrow> 'w animatedSection list \<Rightarrow> 'w animatedSection list" where
  "expandSection sectionKey secs =
     map (\<lambda>a. if expandable (sec a)
               then a\<lparr>animationValue := (if sectionKey = key (sec a) then 1 else 0)\<rparr>
               else a) secs"

text \<open>
  The target states a sheet can reach: the freshly built sections, then any number of
  presses on the header of one of its expandable sections (a header calls
  \<^verbatim>\<open>expandSection(section.key)\<close> with the key of its own section).
\<close>

inductive reachable :: "'w BottomSheetSectionType list \<Rightarrow> 'w animatedSection list \<Rightarrow> bool"
  for sections :: "'w BottomSheetSectionType list" where
  fresh: "reachable sections (animatedSections sections)"
| press: "reachable sections secs \<Longrightarrow> b \<in> set sections \<Longrightarrow> expandable b
          \<Longrightarrow> reachable sections (expandSection (key b) secs)"

definition expanded_count :: "'w animatedSection list \<Rightarrow> nat" where
  "expanded_count secs = length (filter (\<lambda>a. animationValue a = 1) secs)"

definition expandable_keys :: "'w BottomSheetSectionType list \<Rightarrow> string list" where
  "expandable_keys sections = map key (filter expandable sections)"

text \<open>
  An outside world that only records calls, to count them and read their order.
\<close>

datatype call = CallbackCalled string | DismissCalled

definition record_call :: "call \<Rightarrow> call list \<Rightarrow> call list" where
  "record_call c calls = calls @ [c]"

section \<open>Editor host (the component view)\<close>

subsection \<open>Data model\<close>

text \<open>
  The package info of a component descriptor, with the fields the view reads (the field
  \<^verbatim>\<open>identifier\<close> is \<open>pkg_identifier\<close> here). A missing \<^verbatim>\<open>latest_url\<close> is \<open>None\<close>.
\<close>

record package_info =
  pkg_identifier :: string
  version :: string
  download_url :: string
  latest_url :: "string option"

record SNComponent =
  uuid :: string
  package_info :: package_info

datatype error =
  FsError string
| NetworkError string
| UnzipError string
| SyntaxError
| TypeError

text \<open>JavaScript truthiness of an optional string: absent and empty are both falsy.\<close>

fun truthy_string :: "string option \<Rightarrow> bool" where
  "truthy_string None = False"
| "truthy_string (Some s) = (s \<noteq> [])"

text \<open>
  What the view does to the outside, in the order it does it: file system mutations,
  network requests, calls of the props and of the application, and the setter of the
  download flag.
\<close>

datatype event =
  FsUnlink string
| FsDownloadFile string string
| Unzip string string
| Fetch string
| ChangeAndSaveItem string package_info
| SNLogError error
| OnDownloadEditorStart
| OnDownloadEditorEnd
| SetDownloadingOfflineEditor bool
| OnLoadError
| ClearTimeout nat
| Alert string
| OpenUrl string

subsection \<open>The update check\<close>

text \<open>
  The application as \<^verbatim>\<open>checkForComponentUpdate\<close> sees it: whether it is started. The
  reply to \<^verbatim>\<open>fetch(latestUrl).then(r => r.json())\<close> is a parameter: the request or the
  decoding fails (\<open>Inl\<close>), or the body decodes to a falsy value (\<open>Inr None\<close>) or to a
  manifest (\<open>Inr (Some p)\<close>), read with the fields of a package info.
\<close>

record application =
  isStarted :: bool

type_synonym fetch_reply = "string \<Rightarrow> error + package_info option"

text \<open>
  \<^verbatim>\<open>checkForComponentUpdate\<close>. The event \<open>ChangeAndSaveItem u p\<close> is the call
  \<^verbatim>\<open>application.changeAndSaveItem(u, mutator => { mutator.package_info = p })\<close>.
\<close>

definition checkForComponentUpdate ::
  "fetch_reply \<Rightarrow> application \<Rightarrow> SNComponent \<Rightarrow> event list" where
  "checkForComponentUpdate fetch app component =
     (case latest_url (package_info component) of
        None \<Rightarrow> []
      | Some latestUrl \<Rightarrow>
          if latestUrl = [] then []
          else Fetch latestUrl #
            (case fetch latestUrl of
               Inl e \<Rightarrow> [SNLogError e]
             | Inr None \<Rightarrow> []
             | Inr (Some packageInfo) \<Rightarrow>
                 if version packageInfo \<noteq> version (package_info component) \<and> isStarted app
                 then [ChangeAndSaveItem (uuid component) packageInfo]
                 else []))"

definition mutations :: "event list \<Rightarrow> event list" where
  "mutations evs = filter (\<lambda>e. case e of ChangeAndSaveItem u p \<Rightarrow> True | _ \<Rightarrow> False) evs"

subsection \<open>Files\<close>

text \<open>
  The file system behind \<^verbatim>\<open>react-native-fs\<close>, as far as the view uses it: an association
  list from absolute path strings to nodes, in the order in which a directory listing
  returns them. Paths are the strings the source builds by interpolation; they are compared
  as strings.
\<close>

datatype node = File string | Dir

type_synonym filesystem = "(string \<times> node) list"

definition RNFS_exists :: "filesystem \<Rightarrow> string \<Rightarrow> bool" where
  "RNFS_exists fs p = (map_of fs p \<noteq> None)"

text \<open>\<open>is_child dir p\<close>: \<open>p\<close> is \<open>dir/name\<close> for a non-empty name without a slash.\<close>

definition is_child :: "string \<Rightarrow> string \<Rightarrow> bool" where
  "is_child dir p =
     (prefix (dir @ ''/'') p \<and>
      drop (length dir + 1) p \<noteq> [] \<and> CHR ''/'' \<notin> set (drop (length dir + 1) p))"

text \<open>\<open>at_or_below dir p\<close>: \<open>p\<close> is \<open>dir\<close> itself or lies below it.\<close>

definition at_or_below :: "string \<Rightarrow> string \<Rightarrow> bool" where
  "at_or_below dir p = (p = dir \<or> prefix (dir @ ''/'') p)"

text \<open>\<^verbatim>\<open>RNFS.readDir\<close> returns the paths of the entries of a directory and rejects otherwise.\<close>

definition RNFS_readDir :: "filesystem \<Rightarrow> string \<Rightarrow> error + string list" where
  "RNFS_readDir fs dir =
     (case map_of fs dir of
        Some Dir \<Rightarrow> Inr (filter (is_child dir) (map fst fs))
      | _ \<Rightarrow> Inl (FsError dir))"

definition RNFS_readFile :: "filesystem \<Rightarrow> string \<Rightarrow> error + string" where
  "RNFS_readFile fs p =
     (case map_of fs p of
        Some (File c) \<Rightarrow> Inr c
      | _ \<Rightarrow> Inl (FsError p))"

definition remove_tree :: "string \<Rightarrow> filesystem \<Rightarrow> filesystem" where
  "remove_tree p fs = filter (\<lambda>(q, n). \<not> at_or_below p q) fs"

definition write_file :: "string \<Rightarrow> string \<Rightarrow> filesystem \<Rightarrow> filesystem" where
  "write_file p c fs = (p, File c) # filter (\<lambda>(q, n). q \<noteq> p) fs"

text \<open>
  The directories above a path: its non-empty prefixes that end before a slash, the
  outermost first. \<open>parents_from pre rest\<close> walks \<open>rest\<close> with \<open>pre\<close> already read.
\<close>

fun parents_from :: "string \<Rightarrow> string \<Rightarrow> string list" where
  "parents_from pre [] = []"
| "parents_from pre (c # cs) =
     (if c = CHR ''/'' \<and> pre \<noteq> [] then [pre] else []) @ parents_from (pre @ [c]) cs"

definition parent_directories :: "string \<Rightarrow> string list" where
  "parent_directories p = parents_from [] p"

text \<open>
  Unpacking creates the target directory, with the directories above it that do not exist
  yet, and writes the archive's entries, given by paths relative to the target, below it.
\<close>

definition extract_entries :: "string \<Rightarrow> (string \<times> node) list \<Rightarrow> filesystem \<Rightarrow> filesystem" where
  "extract_entries target entries fs =
     (let made = map (\<lambda>q. (q, Dir)) (filter (\<lambda>q. \<not> RNFS_exists fs q) (parent_directories target));
          new = (target, Dir) # map (\<lambda>(rel, n). (target @ ''/'' @ rel, n)) entries
      in made @ new @ filter (\<lambda>(q, n). q \<notin> set (map fst new)) fs)"

text \<open>
  \<open>one_version_below dir vdir fs\<close>: at or below \<open>dir\<close> the files hold nothing but the
  directories leading to \<open>vdir\<close>, \<open>vdir\<close> itself and what lies below it.
\<close>

definition one_version_below :: "string \<Rightarrow> string \<Rightarrow> filesystem \<Rightarrow> bool" where
  "one_version_below dir vdir fs =
     (\<forall>p \<in> fst ` set fs. at_or_below dir p \<longrightarrow> at_or_below p vdir \<or> at_or_below vdir p)"

subsection \<open>Manifests\<close>

text \<open>The values \<^verbatim>\<open>JSON.parse\<close> returns. \<open>None\<close> of type \<open>json option\<close> is \<^verbatim>\<open>undefined\<close>.\<close>

datatype json =
  JNull
| JBool bool
| JNum real
| JStr string
| JArr "json list"
| JObj "(string \<times> json) list"

text \<open>
  \<^verbatim>\<open>v?.k\<close> for the keys the view reads (\<^verbatim>\<open>sn\<close>, \<^verbatim>\<open>main\<close>): an own property of an
  object; \<^verbatim>\<open>undefined\<close> on \<^verbatim>\<open>undefined\<close>, on \<^verbatim>\<open>null\<close>, and on primitives and arrays, which
  have no property of these names.
\<close>

fun get_prop :: "json option \<Rightarrow> string \<Rightarrow> json option" where
  "get_prop (Some (JObj kvs)) k = map_of kvs k"
| "get_prop v k = None"

fun truthy :: "json option \<Rightarrow> bool" where
  "truthy None = False"
| "truthy (Some JNull) = False"
| "truthy (Some (JBool b)) = b"
| "truthy (Some (JNum n)) = (n \<noteq> 0)"
| "truthy (Some (JStr s)) = (s \<noteq> [])"
| "truthy (Some (JArr vs)) = True"
| "truthy (Some (JObj kvs)) = True"

subsection \<open>The host\<close>

datatype platform = IOS | Android | OtherOS

text \<open>
  Everything the view takes from its surroundings: the platform constants, the context,
  and the outcomes of the operations that are not code of this repository. A download
  rejects or yields the archive's content; unpacking writes some entries and then rejects
  or not; a deletion of an existing path may reject; \<^verbatim>\<open>JSON.parse\<close> throws (\<open>None\<close>) or
  returns a value; \<open>ToString\<close> is the string conversion of a template literal for a value
  that is not a string.
\<close>

record host =
  Platform_OS :: platform
  ExternalDirectoryPath :: string
  DocumentDirectoryPath :: string
  application_present :: bool
  download_result :: "string \<Rightarrow> error + string"
  unzip_result :: "string \<Rightarrow> (string \<times> node) list \<times> error option"
  unlink_error :: "string \<Rightarrow> error option"
  JSON_parse :: "string \<Rightarrow> json option"
  ToString :: "json \<Rightarrow> string"

text \<open>
  The mounted view: the files it works on, its React state, the timer reference, and the
  events it has caused so far.
\<close>

record world =
  files :: filesystem
  url :: string
  offlineUrl :: string
  readAccessUrl :: string
  downloadingOfflineEditor :: bool
  loadedOnce :: bool
  timeoutRef :: "nat option"
  events :: "event list"

definition log_event :: "event \<Rightarrow> world \<Rightarrow> world" where
  "log_event e w = w\<lparr>events := events w @ [e]\<rparr>"

definition setDownloadingOfflineEditor :: "bool \<Rightarrow> world \<Rightarrow> world" where
  "setDownloadingOfflineEditor b w =
     log_event (SetDownloadingOfflineEditor b) (w\<lparr>downloadingOfflineEditor := b\<rparr>)"

text \<open>Sequencing of awaited steps: a rejection ends the sequence and is passed on.\<close>

definition then_do ::
  "(world \<Rightarrow> (error + 'a) \<times> world) \<Rightarrow> ('a \<Rightarrow> world \<Rightarrow> (error + 'b) \<times> world)
   \<Rightarrow> world \<Rightarrow> (error + 'b) \<times> world" where
  "then_do m f w = (case m w of (Inl e, w') \<Rightarrow> (Inl e, w') | (Inr x, w') \<Rightarrow> f x w')"

text \<open>\<^verbatim>\<open>RNFS.unlink\<close> rejects on a path that does not exist, and removes a directory with its content.\<close>

definition RNFS_unlink :: "host \<Rightarrow> string \<Rightarrow> world \<Rightarrow> (error + unit) \<times> world" where
  "RNFS_unlink h p w =
     (let w1 = log_event (FsUnlink p) w
      in if \<not> RNFS_exists (files w) p then (Inl (FsError p), w1)
         else (case unlink_error h p of
                 Some e \<Rightarrow> (Inl e, w1)
               | None \<Rightarrow> (Inr (), w1\<lparr>files := remove_tree p (files w)\<rparr>)))"

definition RNFS_downloadFile :: "host \<Rightarrow> string \<Rightarrow> string \<Rightarrow> world \<Rightarrow> (error + unit) \<times> world" where
  "RNFS_downloadFile h fromUrl toFile w =
     (let w1 = log_event (FsDownloadFile fromUrl toFile) w
      in case download_result h fromUrl of
           Inl e \<Rightarrow> (Inl e, w1)
         | Inr content \<Rightarrow> (Inr (), w1\<lparr>files := write_file toFile content (files w)\<rparr>))"

definition unzip :: "host \<Rightarrow> string \<Rightarrow> string \<Rightarrow> world \<Rightarrow> (error + unit) \<times> world" where
  "unzip h source target w =
     (let w1 = log_event (Unzip source target) w
      in case RNFS_readFile (files w) source of
           Inl e \<Rightarrow> (Inl e, w1)
         | Inr archive \<Rightarrow>
             (case unzip_result h archive of
                (entries, err) \<Rightarrow>
                  (case err of
                     Some e \<Rightarrow> (Inl e, w1\<lparr>files := extract_entries target entries (files w)\<rparr>)
                   | None \<Rightarrow> (Inr (), w1\<lparr>files := extract_entries target entries (files w)\<rparr>))))"


subsection \<open>Offline resolution\<close>

text \<open>The paths \<^verbatim>\<open>getOfflineEditorUrl\<close> builds from the package info.\<close>

definition basePath :: "host \<Rightarrow> string" where
  "basePath h =
     (if Platform_OS h = Android then ExternalDirectoryPath h else DocumentDirectoryPath h)"

definition downloadPath :: "host \<Rightarrow> package_info \<Rightarrow> string" where
  "downloadPath h pkg = basePath h @ ''/'' @ pkg_identifier pkg @ ''.zip''"

definition editorDir :: "host \<Rightarrow> package_info \<Rightarrow> string" where
  "editorDir h pkg = basePath h @ ''/editors/'' @ pkg_identifier pkg"

definition versionDir :: "host \<Rightarrow> package_info \<Rightarrow> string" where
  "versionDir h pkg = editorDir h pkg @ ''/'' @ version pkg"

text \<open>
  \<^verbatim>\<open>shouldDownload\<close>. The conjunction and the disjunction short-cut: with the flag set
  nothing is read; \<^verbatim>\<open>readDir\<close> is called only on an existing path, and its rejection
  (the path is a file) leaves the function.
\<close>

definition shouldDownload :: "bool \<Rightarrow> filesystem \<Rightarrow> string \<Rightarrow> error + bool" where
  "shouldDownload downloading fs vdir =
     (if downloading then Inr False
      else if \<not> RNFS_exists fs vdir then Inr True
      else (case RNFS_readDir fs vdir of
              Inl e \<Rightarrow> Inl e
            | Inr items \<Rightarrow> Inr (length items = 0)))"

text \<open>
  What the call \<^verbatim>\<open>checkForComponentUpdate(application, item)\<close>, which is not awaited, does
  before it first suspends: it sends the request when there is a \<^verbatim>\<open>latest_url\<close>.
\<close>

definition checkForComponentUpdate_begin :: "SNComponent \<Rightarrow> world \<Rightarrow> world" where
  "checkForComponentUpdate_begin component w =
     (case latest_url (package_info component) of
        None \<Rightarrow> w
      | Some latestUrl \<Rightarrow> if latestUrl = [] then w else log_event (Fetch latestUrl) w)"

text \<open>The body of the \<^verbatim>\<open>try\<close> block.\<close>

definition download_steps :: "host \<Rightarrow> package_info \<Rightarrow> world \<Rightarrow> (error + unit) \<times> world" where
  "download_steps h pkg =
     then_do (\<lambda>w. if RNFS_exists (files w) (editorDir h pkg)
                   then RNFS_unlink h (editorDir h pkg) w else (Inr (), w))
       (\<lambda>_. then_do (RNFS_downloadFile h (download_url pkg) (downloadPath h pkg))
         (\<lambda>_. then_do (unzip h (downloadPath h pkg) (versionDir h pkg))
           (\<lambda>_. RNFS_unlink h (downloadPath h pkg))))"

text \<open>
  The branch \<^verbatim>\<open>if (shouldDownload)\<close>: the flag, the start callback, the \<^verbatim>\<open>try\<close> block, and
  the \<^verbatim>\<open>finally\<close> block, which runs whatever the outcome and passes a rejection on.
\<close>

definition download_branch :: "host \<Rightarrow> package_info \<Rightarrow> world \<Rightarrow> (error + unit) \<times> world" where
  "download_branch h pkg w =
     (case download_steps h pkg (log_event OnDownloadEditorStart (setDownloadingOfflineEditor True w)) of
        (r, w') \<Rightarrow> (r, setDownloadingOfflineEditor False (log_event OnDownloadEditorEnd w')))"

text \<open>\<^verbatim>\<open>packageJson?.sn?.main || 'index.html'\<close>, interpolated into the path.\<close>

definition mainFileName :: "host \<Rightarrow> json \<Rightarrow> string" where
  "mainFileName h packageJson =
     (let main = get_prop (get_prop (Some packageJson) ''sn'') ''main''
      in if truthy main
         then (case main of Some (JStr s) \<Rightarrow> s | Some v \<Rightarrow> ToString h v | None \<Rightarrow> ''index.html'')
         else ''index.html'')"

text \<open>
  The part after the download branch: the first entry of the version directory (reading
  \<^verbatim>\<open>.path\<close> of \<^verbatim>\<open>packageDir[0]\<close> throws a TypeError on an empty listing), its manifest, the
  main file.
\<close>

definition resolve_main :: "host \<Rightarrow> filesystem \<Rightarrow> string \<Rightarrow> error + string" where
  "resolve_main h fs vdir =
     (case RNFS_readDir fs vdir of
        Inl e \<Rightarrow> Inl e
      | Inr packageDir \<Rightarrow>
          (case packageDir of
             [] \<Rightarrow> Inl TypeError
           | first # rest \<Rightarrow>
               (case RNFS_readFile fs (first @ ''/package.json'') of
                  Inl e \<Rightarrow> Inl e
                | Inr content \<Rightarrow>
                    (case JSON_parse h content of
                       None \<Rightarrow> Inl SyntaxError
                     | Some packageJson \<Rightarrow>
                         if RNFS_exists fs (first @ ''/'' @ mainFileName h packageJson)
                         then Inr (''file://'' @ first @ ''/'' @ mainFileName h packageJson)
                         else Inr []))))"

text \<open>
  The first part of \<^verbatim>\<open>getOfflineEditorUrl\<close> for a live component, up to the end of the
  download branch. The flag read in \<^verbatim>\<open>shouldDownload\<close> is the one of the render that
  created the callback, that is the one of the world the call starts in.
\<close>

definition ensure_downloaded :: "host \<Rightarrow> SNComponent \<Rightarrow> world \<Rightarrow> (error + unit) \<times> world" where
  "ensure_downloaded h item w =
     (case shouldDownload (downloadingOfflineEditor w) (files w) (versionDir h (package_info item)) of
        Inl e \<Rightarrow> (Inl e, w\<lparr>readAccessUrl := versionDir h (package_info item)\<rparr>)
      | Inr should \<Rightarrow>
          (if should then download_branch h (package_info item) else (\<lambda>w1. (Inr (), w1)))
            ((if application_present h then checkForComponentUpdate_begin item else id)
               (w\<lparr>readAccessUrl := versionDir h (package_info item)\<rparr>)))"

text \<open>\<^verbatim>\<open>getOfflineEditorUrl\<close>: nothing without a live component; else both parts in turn.\<close>

definition getOfflineEditorUrl ::
  "host \<Rightarrow> SNComponent option \<Rightarrow> world \<Rightarrow> (error + string) \<times> world" where
  "getOfflineEditorUrl h liveComponent w =
     (case liveComponent of
        None \<Rightarrow> (Inr [], w)
      | Some item \<Rightarrow>
          then_do (ensure_downloaded h item)
            (\<lambda>_ w2. (resolve_main h (files w2) (versionDir h (package_info item)), w2)) w)"

text \<open>Views on the events of a call: those after the ones already there, and kinds of events.\<close>

definition new_events :: "world \<Rightarrow> world \<Rightarrow> event list" where
  "new_events w w' = drop (length (events w)) (events w')"

fun is_fs_event :: "event \<Rightarrow> bool" where
  "is_fs_event (FsUnlink p) = True"
| "is_fs_event (FsDownloadFile u p) = True"
| "is_fs_event (Unzip s t) = True"
| "is_fs_event e = False"

fun is_download_signal :: "event \<Rightarrow> bool" where
  "is_download_signal OnDownloadEditorStart = True"
| "is_download_signal OnDownloadEditorEnd = True"
| "is_download_signal (SetDownloadingOfflineEditor b) = True"
| "is_download_signal e = False"

subsection \<open>The effect that sets the editor URL\<close>

text \<open>
  \<^verbatim>\<open>onLoadErrorHandler\<close>: a pending timer (a truthy identifier) is cleared, then the
  caller's \<^verbatim>\<open>onLoadError\<close> is called.
\<close>

definition onLoadErrorHandler :: "world \<Rightarrow> world" where
  "onLoadErrorHandler w =
     log_event OnLoadError
       (case timeoutRef w of
          None \<Rightarrow> w
        | Some t \<Rightarrow> if t \<noteq> 0 then log_event (ClearTimeout t) w else w)"

text \<open>
  \<^verbatim>\<open>setEditorUrl\<close> for a live component. \<open>newUrl\<close> is what \<^verbatim>\<open>urlForComponent\<close> returns;
  \<open>mounted\<close> is the value of the effect's variable \<^verbatim>\<open>mounted\<close> when the awaited
  resolution settles (the cleanup of the effect sets it to false).
\<close>

definition setEditorUrl ::
  "host \<Rightarrow> string option \<Rightarrow> bool \<Rightarrow> bool \<Rightarrow> SNComponent \<Rightarrow> world \<Rightarrow> world" where
  "setEditorUrl h newUrl offlineOnly mounted item w =
     (case newUrl of
        None \<Rightarrow> log_event (Alert ''Re-install Extension'') w
      | Some u \<Rightarrow>
          if u = [] then log_event (Alert ''Re-install Extension'') w
          else (case getOfflineEditorUrl h (Some item) w of
                  (Inr offlineEditorUrl, w') \<Rightarrow>
                    if mounted then w'\<lparr>offlineUrl := offlineEditorUrl\<rparr> else w'
                | (Inl e, w') \<Rightarrow>
                    if mounted
                    then (if offlineOnly then onLoadErrorHandler w' else w'\<lparr>url := u\<rparr>)
                    else w'))"

subsection \<open>The rendering surface\<close>

text \<open>
  The surface is rendered when one of the two URLs is set; its source is the offline URL,
  or else the remote one, once the first frame has loaded.
\<close>

definition webview_rendered :: "world \<Rightarrow> bool" where
  "webview_rendered w = (truthy_string (Some (url w)) \<or> truthy_string (Some (offlineUrl w)))"

definition webview_source :: "world \<Rightarrow> string option" where
  "webview_source w =
     (if loadedOnce w then Some (if offlineUrl w \<noteq> [] then offlineUrl w else url w) else None)"

datatype navigationType = Click | Formsubmit | Backforward | Reload | Formresubmit | Other

text \<open>A navigation request; Android gives no \<^verbatim>\<open>navigationType\<close>.\<close>

record request =
  request_url :: string
  request_navigationType :: "navigationType option"

text \<open>
  \<^verbatim>\<open>onShouldStartLoadWithRequest\<close>: the new world and the answer, false when the request
  went to the URL opener. The URL compared on Android is the state variable \<^verbatim>\<open>url\<close>.
\<close>

definition onShouldStartLoadWithRequest :: "host \<Rightarrow> request \<Rightarrow> world \<Rightarrow> bool \<times> world" where
  "onShouldStartLoadWithRequest h req w =
     (if (Platform_OS h = IOS \<and> request_navigationType req = Some Click) \<or>
         (Platform_OS h = Android \<and> request_url req \<noteq> url w)
      then (False, log_event (OpenUrl (request_url req)) w)
      else (True, w))"

text \<open>
  The world in which the download branch is decided: the read-access URL is set and the
  update check has sent its request.
\<close>

definition before_download :: "host \<Rightarrow> SNComponent \<Rightarrow> world \<Rightarrow> world" where
  "before_download h item w =
     (if application_present h then checkForComponentUpdate_begin item else id)
       (w\<lparr>readAccessUrl := versionDir h (package_info item)\<rparr>)"

subsection \<open>A sample installation\<close>

text \<open>
  An Android host, an editor package \<open>e\<close> in version 1 whose archive unpacks to a folder
  \<open>pkg\<close> with a manifest and an \<open>index.html\<close>, and states of the files: an older version 0
  installed, version 1 installed (the files the upgrade from version 0 leaves), version 1
  installed without its main file. A second host has no network: every download rejects.
  A second descriptor is the same component in version 2.
\<close>

definition sample_host :: host where
  "sample_host =
     \<lparr>Platform_OS = Android,
      ExternalDirectoryPath = ''/ext'',
      DocumentDirectoryPath = ''/doc'',
      application_present = True,
      download_result = (\<lambda>u. if u = ''https://x/e.zip'' then Inr ''PK'' else Inl (NetworkError u)),
      unzip_result = (\<lambda>a. ([(''pkg'', Dir), (''pkg/package.json'', File ''{}''),
                               (''pkg/index.html'', File ''<html>'')], None)),
      unlink_error = (\<lambda>p. None),
      JSON_parse = (\<lambda>s. if s = ''{}'' then Some (JObj []) else None),
      ToString = (\<lambda>v. ''[object Object]'')\<rparr>"

definition sample_host_offline :: host where
  "sample_host_offline = sample_host\<lparr>download_result := (\<lambda>u. Inl (NetworkError u))\<rparr>"

definition sample_package :: package_info where
  "sample_package =
     \<lparr>pkg_identifier = ''e'', version = ''1'', download_url = ''https://x/e.zip'',
      latest_url = Some ''https://x/latest.json''\<rparr>"

definition sample_component :: SNComponent where
  "sample_component = \<lparr>uuid = ''c1'', package_info = sample_package\<rparr>"

definition sample_world :: "filesystem \<Rightarrow> world" where
  "sample_world fs =
     \<lparr>files = fs, url = [], offlineUrl = [], readAccessUrl = [],
      downloadingOfflineEditor = False, loadedOnce = True, timeoutRef = None, events = []\<rparr>"

definition files_old_version :: filesystem where
  "files_old_version =
     [(''/ext'', Dir), (''/ext/editors'', Dir),
      (''/ext/editors/e'', Dir), (''/ext/editors/e/0'', Dir), (''/ext/editors/e/0/pkg'', Dir),
      (''/ext/editors/e/0/pkg/package.json'', File ''{}''),
      (''/ext/editors/e/0/pkg/index.html'', File ''<old>'')]"

definition files_installed :: filesystem where
  "files_installed =
     [(''/ext/editors/e'', Dir),
      (''/ext/editors/e/1'', Dir), (''/ext/editors/e/1/pkg'', Dir),
      (''/ext/editors/e/1/pkg/package.json'', File ''{}''),
      (''/ext/editors/e/1/pkg/index.html'', File ''<html>''),
      (''/ext'', Dir), (''/ext/editors'', Dir)]"

definition files_without_main :: filesystem where
  "files_without_main =
     [(''/ext/editors/e'', Dir),
      (''/ext/editors/e/1'', Dir), (''/ext/editors/e/1/pkg'', Dir),
      (''/ext/editors/e/1/pkg/package.json'', File ''{}''),
      (''/ext'', Dir), (''/ext/editors'', Dir)]"

definition sample_component_v2 :: SNComponent where
  "sample_component_v2 = \<lparr>uuid = ''c1'', package_info = sample_package\<lparr>version := ''2''\<rparr>\<rparr>"

section \<open>Properties of the action sheet\<close>

subsection \<open>Snap height\<close>

text \<open>
  Claim C7. For a window of positive height \<open>H\<close> and content height \<open>c\<close>, the sum of the
  measured title and list heights: the only snap point is the placeholder 1 when \<open>c = 0\<close>,
  is \<open>c\<close> when \<open>0 < c < 0.85 H\<close>, and is \<open>0.85 H\<close> when \<open>c \<ge> 0.85 H\<close>. With \<open>H = 800\<close>:
  400 gives 400, 900 gives 680, 0 gives 1.
\<close>

theorem snapPoints_spec:
  assumes "0 < H"
  shows "(contentHeight t l = 0 \<longrightarrow> snapPoints H (contentHeight t l) = [1]) \<and>
         (0 < contentHeight t l \<and> contentHeight t l < 0.85 * H
            \<longrightarrow> snapPoints H (contentHeight t l) = [contentHeight t l]) \<and>
         (0.85 * H \<le> contentHeight t l \<longrightarrow> snapPoints H (contentHeight t l) = [0.85 * H]) \<and>
         snapPoints 800 400 = [400] \<and> snapPoints 800 900 = [680] \<and> snapPoints 800 0 = [1]"
  using assms by (auto simp: snapPoints_def Let_def)

theorem snapPoints_spec_witness:
  "(0::real) < 800 \<and>
   0 < contentHeight 100 300 \<and> contentHeight 100 300 < 0.85 * 800 \<and>
   snapPoints 800 (contentHeight 100 300) = [400] \<and>
   0.85 * 800 \<le> contentHeight 100 800 \<and> snapPoints 800 (contentHeight 100 800) = [680] \<and>
   contentHeight 0 0 = 0 \<and> snapPoints 800 (contentHeight 0 0) = [1]"
  using snapPoints_spec [of 800 100 300] snapPoints_spec [of 800 100 800]
    snapPoints_spec [of 800 0 0]
  by (simp add: contentHeight_def)

subsection \<open>Pressing an action\<close>

text \<open>
  Claim C9. One press runs the action's callback once when there is one, and after it
  the dismissal once when the action is flagged \<^verbatim>\<open>dismissSheetOnPress\<close>; with neither it
  changes nothing. The second conjunct reads this off a world that records the calls.
\<close>

theorem onPress_callback_then_dismiss:
  "onPress a d w =
     (if truthy_flag (dismissSheetOnPress a) then d else id)
       ((case callback a of Some f \<Rightarrow> f | None \<Rightarrow> id) w) \<and>
   onPress (b\<lparr>callback := (if has_callback then Some (record_call (CallbackCalled k)) else None)\<rparr>)
      (record_call DismissCalled) calls =
     calls @ (if has_callback then [CallbackCalled k] else []) @
       (if truthy_flag (dismissSheetOnPress b) then [DismissCalled] else [])"
  by (simp add: onPress_def Let_def record_call_def split: option.splits)

subsection \<open>Expanding a section\<close>

lemma sec_expandSection: "map sec (expandSection k secs) = map sec secs"
  by (induction secs) (simp_all add: expandSection_def)

lemma reachable_sec: "reachable sections secs \<Longrightarrow> map sec secs = sections"
  by (induction rule: reachable.induct)
     (simp_all add: animatedSections_def sec_expandSection comp_def)

lemma reachable_default_zero:
  "reachable sections secs \<Longrightarrow> \<forall>a \<in> set secs. \<not> expandable (sec a) \<longrightarrow> animationValue a = 0"
  by (induction rule: reachable.induct)
     (auto simp: animatedSections_def expandSection_def)

lemma expanded_count_expandSection:
  assumes "\<forall>a \<in> set secs. \<not> expandable (sec a) \<longrightarrow> animationValue a = 0"
  shows "expanded_count (expandSection k secs) =
         length (filter (\<lambda>x. x = k) (map key (filter expandable (map sec secs))))"
  using assms
proof (induction secs)
  case Nil
  then show ?case by (simp add: expanded_count_def expandSection_def)
next
  case (Cons a secs)
  then have ih: "expanded_count (expandSection k secs) =
         length (filter (\<lambda>x. x = k) (map key (filter expandable (map sec secs))))"
    by simp
  have step: "expanded_count (expandSection k (a # secs)) =
      (if expandable (sec a) \<and> k = key (sec a) then 1 else 0) + expanded_count (expandSection k secs)"
    using Cons.prems by (simp add: expanded_count_def expandSection_def)
  show ?case unfolding step ih by auto
qed

lemma absent_occurs_never: "k \<notin> set xs \<Longrightarrow> filter (\<lambda>x. x = k) xs = []"
  by (induction xs) auto

lemma distinct_occurs_once: "distinct xs \<Longrightarrow> length (filter (\<lambda>x. x = k) xs) \<le> 1"
  by (induction xs) (auto simp: absent_occurs_never)

lemma expandSection_count:
  assumes "distinct (map key (filter expandable (map sec secs)))"
    and "\<forall>a \<in> set secs. \<not> expandable (sec a) \<longrightarrow> animationValue a = 0"
  shows "expanded_count (expandSection k secs) \<le> 1"
proof -
  have "expanded_count (expandSection k secs) =
         length (filter (\<lambda>x. x = k) (map key (filter expandable (map sec secs))))"
    using assms(2) by (rule expanded_count_expandSection)
  also have "\<dots> \<le> 1" using assms(1) by (rule distinct_occurs_once)
  finally show ?thesis .
qed

lemma expandSection_targets:
  "\<forall>a \<in> set (expandSection k secs). expandable (sec a) \<longrightarrow>
      animationValue a = (if k = key (sec a) then 1 else 0)"
  by (auto simp: expandSection_def)

lemma reachable_count:
  assumes "distinct (expandable_keys sections)" and "reachable sections secs"
  shows "expanded_count secs \<le> 1"
  using assms(2)
proof (induction rule: reachable.induct)
  case fresh
  then show ?case by (simp add: expanded_count_def animatedSections_def comp_def)
next
  case (press secs b)
  have "map sec secs = sections" using press.hyps(1) by (rule reachable_sec)
  then have "distinct (map key (filter expandable (map sec secs)))"
    using assms(1) by (simp add: expandable_keys_def)
  then show ?case
    using reachable_default_zero [OF press.hyps(1)] by (rule expandSection_count)
qed

lemma same_key_same_section:
  assumes "distinct (expandable_keys sections)"
    and "x \<in> set sections" "expandable x" "y \<in> set sections" "expandable y" "key x = key y"
  shows "x = y"
proof -
  have "inj_on key (set (filter expandable sections))"
    using assms(1) unfolding expandable_keys_def by (simp only: distinct_map)
  then show ?thesis using assms(2-) by (auto dest: inj_onD)
qed

text \<open>
  Claim C8, on the code: two expandable sections with the same key are both driven to 1
  by a press on either header.
\<close>

theorem expandSection_duplicate_keys_counterexample:
  "reachable [ExpandableSection ''a'' [] ''A'' None None, ExpandableSection ''a'' [] ''B'' None None]
     (expandSection ''a'' (animatedSections
        [ExpandableSection ''a'' [] ''A'' None None,
         ExpandableSection ''a'' ([] :: unit BottomSheetActionType list) ''B'' None None])) \<and>
   map animationValue (expandSection ''a'' (animatedSections
        [ExpandableSection ''a'' [] ''A'' None None,
         ExpandableSection ''a'' ([] :: unit BottomSheetActionType list) ''B'' None None])) = [1, 1] \<and>
   \<not> expanded_count (expandSection ''a'' (animatedSections
        [ExpandableSection ''a'' [] ''A'' None None,
         ExpandableSection ''a'' ([] :: unit BottomSheetActionType list) ''B'' None None])) \<le> 1"
proof -
  let ?A = "ExpandableSection ''a'' ([] :: unit BottomSheetActionType list) ''A'' None None"
  let ?B = "ExpandableSection ''a'' ([] :: unit BottomSheetActionType list) ''B'' None None"
  have "reachable [?A, ?B] (expandSection (key ?A) (animatedSections [?A, ?B]))"
    by (rule reachable.press [OF reachable.fresh]) simp_all
  then show ?thesis
    by (simp add: expanded_count_def expandSection_def animatedSections_def)
qed

text \<open>
  Claim C8, amended. When the expandable sections of the sheet have pairwise different
  keys: in every reachable target state at most one section is at 1; a press on the
  header of an expandable section \<open>b\<close> drives \<open>b\<close> to 1 and every other expandable
  section to 0, and leaves at most one section at 1.
\<close>

theorem expandSection_single_expanded:
  assumes "distinct (expandable_keys sections)" and "reachable sections secs"
  shows "expanded_count secs \<le> 1 \<and>
         (\<forall>b \<in> set sections. expandable b \<longrightarrow>
            (\<forall>a \<in> set (expandSection (key b) secs). expandable (sec a) \<longrightarrow>
               animationValue a = (if sec a = b then 1 else 0)) \<and>
            expanded_count (expandSection (key b) secs) \<le> 1)"
proof (intro conjI ballI impI)
  show "expanded_count secs \<le> 1" using assms by (rule reachable_count)
next
  fix b a
  assume b: "b \<in> set sections" "expandable b"
    and a: "a \<in> set (expandSection (key b) secs)" "expandable (sec a)"
  have "reachable sections (expandSection (key b) secs)"
    using assms(2) b by (rule reachable.press)
  then have "map sec (expandSection (key b) secs) = sections" by (rule reachable_sec)
  then have "sec a \<in> set sections" using a(1) by (metis image_eqI set_map)
  then have "key b = key (sec a) \<longleftrightarrow> sec a = b"
    using same_key_same_section [OF assms(1) _ a(2) b] by auto
  then show "animationValue a = (if sec a = b then 1 else 0)"
    using expandSection_targets a by fastforce
next
  fix b
  assume b: "b \<in> set sections" "expandable b"
  have "reachable sections (expandSection (key b) secs)"
    using assms(2) b by (rule reachable.press)
  then show "expanded_count (expandSection (key b) secs) \<le> 1"
    using assms(1) reachable_count by blast
qed

theorem expandSection_single_expanded_witness:
  "distinct (expandable_keys
     [ExpandableSection ''a'' [] ''A'' None None,
      ExpandableSection ''b'' ([] :: unit BottomSheetActionType list) ''B'' None None,
      DefaultSection ''c'' []]) \<and>
   reachable
     [ExpandableSection ''a'' [] ''A'' None None,
      ExpandableSection ''b'' ([] :: unit BottomSheetActionType list) ''B'' None None,
      DefaultSection ''c'' []]
     (expandSection ''a'' (animatedSections
        [ExpandableSection ''a'' [] ''A'' None None,
         ExpandableSection ''b'' ([] :: unit BottomSheetActionType list) ''B'' None None,
         DefaultSection ''c'' []])) \<and>
   expanded_count (expandSection ''b'' (expandSection ''a'' (animatedSections
        [ExpandableSection ''a'' [] ''A'' None None,
         ExpandableSection ''b'' ([] :: unit BottomSheetActionType list) ''B'' None None,
         DefaultSection ''c'' []]))) \<le> 1 \<and>
   map animationValue (expandSection ''b'' (expandSection ''a'' (animatedSections
        [ExpandableSection ''a'' [] ''A'' None None,
         ExpandableSection ''b'' ([] :: unit BottomSheetActionType list) ''B'' None None,
         DefaultSection ''c'' []]))) = [0, 1, 0]"
proof -
  let ?A = "ExpandableSection ''a'' ([] :: unit BottomSheetActionType list) ''A'' None None"
  let ?B = "ExpandableSection ''b'' ([] :: unit BottomSheetActionType list) ''B'' None None"
  let ?C = "DefaultSection ''c'' ([] :: unit BottomSheetActionType list)"
  have d: "distinct (expandable_keys [?A, ?B, ?C])"
    by (simp add: expandable_keys_def)
  have "reachable [?A, ?B, ?C] (expandSection (key ?A) (animatedSections [?A, ?B, ?C]))"
    by (rule reachable.press [OF reachable.fresh]) simp_all
  then have r: "reachable [?A, ?B, ?C] (expandSection ''a'' (animatedSections [?A, ?B, ?C]))"
    by simp
  have "expanded_count (expandSection (key ?B)
          (expandSection ''a'' (animatedSections [?A, ?B, ?C]))) \<le> 1"
    using expandSection_single_expanded [OF d r] by simp
  then have c: "expanded_count (expandSection ''b''
          (expandSection ''a'' (animatedSections [?A, ?B, ?C]))) \<le> 1"
    by simp
  have v: "map animationValue (expandSection ''b''
          (expandSection ''a'' (animatedSections [?A, ?B, ?C]))) = [0, 1, 0]"
    by (simp add: expandSection_def animatedSections_def)
  show ?thesis using d r c v by blast
qed

section \<open>Properties of the editor host\<close>

subsection \<open>The update check\<close>

text \<open>
  Claim C2, on the code: with a \<^verbatim>\<open>latest_url\<close> and a fetched manifest of another
  version, nothing is persisted while the application is not started.
\<close>

theorem checkForComponentUpdate_not_started_counterexample:
  "latest_url (package_info sample_component) = Some ''https://x/latest.json'' \<and>
   version (sample_package\<lparr>version := ''2''\<rparr>) \<noteq> version (package_info sample_component) \<and>
   length (mutations (checkForComponentUpdate
      (\<lambda>u. Inr (Some (sample_package\<lparr>version := ''2''\<rparr>)))
      \<lparr>isStarted = False\<rparr> sample_component)) \<noteq> 1"
  by (simp add: checkForComponentUpdate_def mutations_def sample_component_def sample_package_def)

text \<open>
  Claim C2, amended. Without a \<^verbatim>\<open>latest_url\<close> (absent or empty) the update check
  sends no request and persists nothing: it does nothing at all. With a \<^verbatim>\<open>latest_url\<close>
  and a fetched manifest of the descriptor's current version, nothing is persisted. With a
  fetched manifest of another version and the application started, exactly one
  \<^verbatim>\<open>changeAndSaveItem\<close> is made, for the descriptor's uuid, setting its package info to the
  fetched manifest.
\<close>

theorem checkForComponentUpdate_spec:
  "(\<not> truthy_string (latest_url (package_info c)) \<longrightarrow> checkForComponentUpdate fetch app c = []) \<and>
   (latest_url (package_info c) = Some u \<and> u \<noteq> [] \<and> fetch u = Inr (Some p) \<and>
      version p = version (package_info c)
      \<longrightarrow> mutations (checkForComponentUpdate fetch app c) = []) \<and>
   (latest_url (package_info c) = Some u \<and> u \<noteq> [] \<and> fetch u = Inr (Some p) \<and>
      version p \<noteq> version (package_info c) \<and> isStarted app
      \<longrightarrow> mutations (checkForComponentUpdate fetch app c) = [ChangeAndSaveItem (uuid c) p])"
  by (cases "latest_url (package_info c)")
     (auto simp: checkForComponentUpdate_def mutations_def)

theorem checkForComponentUpdate_spec_witness:
  "\<not> truthy_string (latest_url (package_info
       (sample_component\<lparr>package_info := sample_package\<lparr>latest_url := None\<rparr>\<rparr>))) \<and>
   checkForComponentUpdate (\<lambda>u. Inl (NetworkError u)) \<lparr>isStarted = True\<rparr>
       (sample_component\<lparr>package_info := sample_package\<lparr>latest_url := None\<rparr>\<rparr>) = [] \<and>
   latest_url (package_info sample_component) = Some ''https://x/latest.json'' \<and>
   version sample_package = version (package_info sample_component) \<and>
   mutations (checkForComponentUpdate (\<lambda>u. Inr (Some sample_package)) \<lparr>isStarted = True\<rparr>
       sample_component) = [] \<and>
   version (sample_package\<lparr>version := ''2''\<rparr>) \<noteq> version (package_info sample_component) \<and>
   mutations (checkForComponentUpdate (\<lambda>u. Inr (Some (sample_package\<lparr>version := ''2''\<rparr>)))
       \<lparr>isStarted = True\<rparr> sample_component) =
     [ChangeAndSaveItem ''c1'' (sample_package\<lparr>version := ''2''\<rparr>)]"
  using
    checkForComponentUpdate_spec [of "sample_component\<lparr>package_info := sample_package\<lparr>latest_url := None\<rparr>\<rparr>"
      "\<lambda>u. Inl (NetworkError u)" "\<lparr>isStarted = True\<rparr>"]
    checkForComponentUpdate_spec [of sample_component "\<lambda>u. Inr (Some sample_package)"
      "\<lparr>isStarted = True\<rparr>" "''https://x/latest.json''" sample_package]
    checkForComponentUpdate_spec [of sample_component
      "\<lambda>u. Inr (Some (sample_package\<lparr>version := ''2''\<rparr>))" "\<lparr>isStarted = True\<rparr>"
      "''https://x/latest.json''" "sample_package\<lparr>version := ''2''\<rparr>"]
  by (simp add: sample_component_def sample_package_def)

subsection \<open>Files and events\<close>


lemmas step_defs = RNFS_unlink_def RNFS_downloadFile_def unzip_def log_event_def then_do_def
  setDownloadingOfflineEditor_def

lemmas run_defs = getOfflineEditorUrl_def ensure_downloaded_def download_branch_def
  download_steps_def shouldDownload_def checkForComponentUpdate_begin_def resolve_main_def
  mainFileName_def step_defs
  RNFS_exists_def RNFS_readDir_def RNFS_readFile_def remove_tree_def write_file_def
  extract_entries_def parent_directories_def is_child_def at_or_below_def
  basePath_def downloadPath_def editorDir_def versionDir_def

lemmas sample_defs = sample_host_def sample_host_offline_def sample_package_def
  sample_component_def sample_world_def files_old_version_def files_installed_def

lemma new_events_append [simp]: "events w' = events w @ evs \<Longrightarrow> new_events w w' = evs"
  by (simp add: new_events_def)

lemma new_events_trans:
  assumes "events w1 = events w @ evs0" and "\<exists>evs. events w' = events w1 @ evs"
  shows "new_events w w' = evs0 @ new_events w1 w'"
  using assms by (auto simp: new_events_def)

lemma fs_event_no_signal: "is_fs_event e \<Longrightarrow> \<not> is_download_signal e"
  by (cases e) simp_all

lemma fetch_filters:
  assumes "\<forall>e \<in> set evs. \<exists>u. e = Fetch u"
  shows "filter is_download_signal evs = []" "filter is_fs_event evs = []"
  using assms by (auto simp: filter_empty_conv)

lemma exists_iff: "RNFS_exists fs p \<longleftrightarrow> p \<in> fst ` set fs"
  by (simp add: RNFS_exists_def map_of_eq_None_iff)

lemma exists_remove_tree: "RNFS_exists (remove_tree p fs) q \<longleftrightarrow> RNFS_exists fs q \<and> \<not> at_or_below p q"
  by (force simp: exists_iff remove_tree_def)

lemma exists_write_file: "RNFS_exists (write_file p c fs) q \<longleftrightarrow> q = p \<or> RNFS_exists fs q"
  by (force simp: exists_iff write_file_def)

lemma parents_from_above:
  "q \<in> set (parents_from pre rest) \<Longrightarrow> \<exists>r. pre @ rest = q @ ''/'' @ r"
proof (induction rest arbitrary: pre)
  case Nil
  then show ?case by simp
next
  case (Cons c cs)
  show ?case
  proof (cases "q \<in> set (parents_from (pre @ [c]) cs)")
    case True
    from Cons.IH [OF this] show ?thesis by simp
  next
    case False
    then have "c = CHR ''/''" "q = pre"
      using Cons.prems by (auto split: if_splits)
    then show ?thesis by simp
  qed
qed

lemma parent_directories_above: "q \<in> set (parent_directories t) \<Longrightarrow> at_or_below q t"
  using parents_from_above [of q "[]" t]
  by (auto simp: parent_directories_def at_or_below_def)

lemma exists_extract_entries:
  "RNFS_exists (extract_entries t es fs) q \<Longrightarrow>
     q \<in> set (parent_directories t) \<or> at_or_below t q \<or> RNFS_exists fs q"
  by (force simp: exists_iff extract_entries_def at_or_below_def Let_def)

lemma at_or_below_refl: "at_or_below p p"
  by (simp add: at_or_below_def)

lemma readDir_exists: "RNFS_readDir fs d = Inr xs \<Longrightarrow> RNFS_exists fs d"
  by (auto simp: RNFS_readDir_def RNFS_exists_def split: option.splits node.splits)

lemma readFile_written [simp]: "RNFS_readFile (write_file p c fs) p = Inr c"
  by (simp add: RNFS_readFile_def write_file_def)

subsection \<open>The steps of offline resolution\<close>

text \<open>The \<^verbatim>\<open>try\<close> block changes only the files and adds only file events.\<close>

lemma download_steps_frame:
  assumes "download_steps h pkg w = (r, w')"
  shows "\<exists>evs. events w' = events w @ evs \<and> (\<forall>e \<in> set evs. is_fs_event e) \<and>
           url w' = url w \<and> offlineUrl w' = offlineUrl w \<and> readAccessUrl w' = readAccessUrl w \<and>
           downloadingOfflineEditor w' = downloadingOfflineEditor w \<and>
           loadedOnce w' = loadedOnce w \<and> timeoutRef w' = timeoutRef w"
  using assms
  by (auto simp: download_steps_def step_defs Let_def
           split: if_splits sum.splits option.splits prod.splits)

lemma download_steps_success:
  assumes "download_steps h pkg w = (Inr (), w')"
  shows "\<exists>a entries. download_result h (download_url pkg) = Inr a \<and>
           unzip_result h a = (entries, None) \<and>
           unlink_error h (downloadPath h pkg) = None \<and>
           files w' = remove_tree (downloadPath h pkg)
             (extract_entries (versionDir h pkg) entries
               (write_file (downloadPath h pkg) a
                 (if RNFS_exists (files w) (editorDir h pkg)
                  then remove_tree (editorDir h pkg) (files w) else files w))) \<and>
           events w' = events w @
             (if RNFS_exists (files w) (editorDir h pkg) then [FsUnlink (editorDir h pkg)] else []) @
             [FsDownloadFile (download_url pkg) (downloadPath h pkg),
              Unzip (downloadPath h pkg) (versionDir h pkg),
              FsUnlink (downloadPath h pkg)]"
  using assms
  by (auto simp: download_steps_def step_defs Let_def
           split: if_splits sum.splits option.splits prod.splits)

lemma download_steps_events:
  assumes "download_steps h pkg w = (r, w')"
  shows "\<exists>rest. events w' = events w @
             (if RNFS_exists (files w) (editorDir h pkg) then [FsUnlink (editorDir h pkg)] else []) @ rest \<and>
           rest \<in> {[],
             [FsDownloadFile (download_url pkg) (downloadPath h pkg)],
             [FsDownloadFile (download_url pkg) (downloadPath h pkg),
              Unzip (downloadPath h pkg) (versionDir h pkg)],
             [FsDownloadFile (download_url pkg) (downloadPath h pkg),
              Unzip (downloadPath h pkg) (versionDir h pkg),
              FsUnlink (downloadPath h pkg)]} \<and>
           (rest \<noteq> [] \<longrightarrow> RNFS_exists (files w) (editorDir h pkg) \<longrightarrow> unlink_error h (editorDir h pkg) = None) \<and>
           (\<forall>a. download_result h (download_url pkg) = Inr a \<and> snd (unzip_result h a) = None \<and> rest \<noteq> []
              \<longrightarrow> rest = [FsDownloadFile (download_url pkg) (downloadPath h pkg),
              Unzip (downloadPath h pkg) (versionDir h pkg),
              FsUnlink (downloadPath h pkg)])"
  using assms
  by (auto simp: download_steps_def step_defs Let_def
           split: if_splits sum.splits option.splits prod.splits)

lemma downloadPath_outside: "\<not> at_or_below (editorDir h pkg) (downloadPath h pkg)"
proof
  assume "at_or_below (editorDir h pkg) (downloadPath h pkg)"
  then have "length (editorDir h pkg) \<le> length (downloadPath h pkg)"
    by (auto simp: at_or_below_def dest: prefix_length_le)
  then show False by (simp add: editorDir_def downloadPath_def)
qed

lemma one_version_below_emptied: "one_version_below dir vdir (remove_tree dir fs)"
  by (auto simp: one_version_below_def remove_tree_def)

lemma one_version_below_write:
  "one_version_below dir vdir fs \<Longrightarrow> \<not> at_or_below dir p \<Longrightarrow>
     one_version_below dir vdir (write_file p c fs)"
  by (auto simp: one_version_below_def write_file_def)

lemma one_version_below_remove:
  "one_version_below dir vdir fs \<Longrightarrow> one_version_below dir vdir (remove_tree p fs)"
  by (auto simp: one_version_below_def remove_tree_def)

lemma one_version_below_extract:
  assumes "one_version_below dir vdir fs"
  shows "one_version_below dir vdir (extract_entries vdir es fs)"
  unfolding one_version_below_def
proof (intro ballI impI)
  fix p
  assume "p \<in> fst ` set (extract_entries vdir es fs)" and below: "at_or_below dir p"
  then have "RNFS_exists (extract_entries vdir es fs) p" by (simp add: exists_iff)
  then consider "p \<in> set (parent_directories vdir)" | "at_or_below vdir p" | "RNFS_exists fs p"
    using exists_extract_entries by blast
  then show "at_or_below p vdir \<or> at_or_below vdir p"
  proof cases
    case 1
    then show ?thesis by (simp add: parent_directories_above)
  next
    case 2
    then show ?thesis by simp
  next
    case 3
    then show ?thesis using assms below by (auto simp: one_version_below_def exists_iff)
  qed
qed

text \<open>
  Once an existing editor directory has been deleted, the \<^verbatim>\<open>try\<close> block leaves below it
  only what the unpacking of the new version writes, whatever its outcome; when the block
  succeeds the archive is gone.
\<close>

lemma download_steps_retains:
  assumes "download_steps h pkg w = (r, w')"
    and "RNFS_exists (files w) (editorDir h pkg)"
    and "unlink_error h (editorDir h pkg) = None"
  shows "one_version_below (editorDir h pkg) (versionDir h pkg) (files w')"
  using assms
  by (auto simp: download_steps_def step_defs Let_def
        one_version_below_emptied one_version_below_write one_version_below_remove
        one_version_below_extract downloadPath_outside
      split: if_splits sum.splits option.splits prod.splits)

lemma download_steps_archive:
  assumes "download_steps h pkg w = (Inr (), w')"
  shows "\<not> RNFS_exists (files w') (downloadPath h pkg)"
  using assms
  by (auto simp: download_steps_def step_defs Let_def exists_iff remove_tree_def at_or_below_refl
      split: if_splits sum.splits option.splits prod.splits)

lemma download_branch_signals:
  assumes "download_branch h pkg w = (r, w')"
  shows "filter is_download_signal (new_events w w') =
           [SetDownloadingOfflineEditor True, OnDownloadEditorStart,
            OnDownloadEditorEnd, SetDownloadingOfflineEditor False] \<and>
         downloadingOfflineEditor w' = False \<and>
         r = fst (download_steps h pkg
                (log_event OnDownloadEditorStart (setDownloadingOfflineEditor True w)))"
proof -
  let ?w1 = "log_event OnDownloadEditorStart (setDownloadingOfflineEditor True w)"
  obtain r1 w2 where run: "download_steps h pkg ?w1 = (r1, w2)" by (cases "download_steps h pkg ?w1")
  from download_steps_frame [OF run] obtain evs where
    evs: "events w2 = events ?w1 @ evs" "\<forall>e \<in> set evs. is_fs_event e" by blast
  have nosig: "filter is_download_signal evs = []"
    using evs(2) by (auto simp: filter_empty_conv dest: fs_event_no_signal)
  have w': "w' = setDownloadingOfflineEditor False (log_event OnDownloadEditorEnd w2)" and r: "r = r1"
    using assms run by (simp_all add: download_branch_def)
  have "events w' = events w @ [SetDownloadingOfflineEditor True, OnDownloadEditorStart] @ evs @
           [OnDownloadEditorEnd, SetDownloadingOfflineEditor False]"
    using evs(1) by (simp add: w' step_defs)
  then have "new_events w w' = [SetDownloadingOfflineEditor True, OnDownloadEditorStart] @ evs @
           [OnDownloadEditorEnd, SetDownloadingOfflineEditor False]"
    by simp
  then show ?thesis using nosig r run by (simp add: w' step_defs)
qed

lemma download_branch_frame:
  assumes "download_branch h pkg w = (r, w')"
  shows "url w' = url w \<and> offlineUrl w' = offlineUrl w \<and> loadedOnce w' = loadedOnce w \<and>
         timeoutRef w' = timeoutRef w \<and>
         (\<exists>evs. events w' = events w @ evs \<and> (\<forall>e \<in> set evs. is_fs_event e \<or> is_download_signal e))"
proof -
  let ?w1 = "log_event OnDownloadEditorStart (setDownloadingOfflineEditor True w)"
  obtain r1 w2 where run: "download_steps h pkg ?w1 = (r1, w2)" by (cases "download_steps h pkg ?w1")
  from download_steps_frame [OF run] obtain evs where
    evs: "events w2 = events ?w1 @ evs" "\<forall>e \<in> set evs. is_fs_event e"
    and fr: "url w2 = url ?w1" "offlineUrl w2 = offlineUrl ?w1" "loadedOnce w2 = loadedOnce ?w1"
      "timeoutRef w2 = timeoutRef ?w1" by blast
  have w': "w' = setDownloadingOfflineEditor False (log_event OnDownloadEditorEnd w2)"
    using assms run by (simp add: download_branch_def)
  have "events w' = events w @ ([SetDownloadingOfflineEditor True, OnDownloadEditorStart] @ evs @
           [OnDownloadEditorEnd, SetDownloadingOfflineEditor False])"
    using evs(1) by (simp add: w' step_defs)
  moreover have "\<forall>e \<in> set ([SetDownloadingOfflineEditor True, OnDownloadEditorStart] @ evs @
           [OnDownloadEditorEnd, SetDownloadingOfflineEditor False]). is_fs_event e \<or> is_download_signal e"
    using evs(2) by auto
  ultimately show ?thesis using fr by (auto simp: w' step_defs)
qed

lemma download_branch_fs_events:
  assumes "download_branch h pkg w = (r, w')"
  shows "\<exists>w2 evs. download_steps h pkg (log_event OnDownloadEditorStart (setDownloadingOfflineEditor True w)) = (r, w2) \<and>
           files w' = files w2 \<and>
           events w2 = events w @ [SetDownloadingOfflineEditor True, OnDownloadEditorStart] @ evs \<and>
           (\<forall>e \<in> set evs. is_fs_event e) \<and>
           new_events w w' = [SetDownloadingOfflineEditor True, OnDownloadEditorStart] @ evs @
              [OnDownloadEditorEnd, SetDownloadingOfflineEditor False]"
proof -
  let ?w1 = "log_event OnDownloadEditorStart (setDownloadingOfflineEditor True w)"
  obtain r1 w2 where run: "download_steps h pkg ?w1 = (r1, w2)" by (cases "download_steps h pkg ?w1")
  from download_steps_frame [OF run] obtain evs where
    evs: "events w2 = events ?w1 @ evs" "\<forall>e \<in> set evs. is_fs_event e" by blast
  have w': "w' = setDownloadingOfflineEditor False (log_event OnDownloadEditorEnd w2)" and r: "r = r1"
    using assms run by (simp_all add: download_branch_def)
  have "events w' = events w @ ([SetDownloadingOfflineEditor True, OnDownloadEditorStart] @ evs @
           [OnDownloadEditorEnd, SetDownloadingOfflineEditor False])"
    using evs(1) by (simp add: w' step_defs)
  then have "new_events w w' = [SetDownloadingOfflineEditor True, OnDownloadEditorStart] @ evs @
           [OnDownloadEditorEnd, SetDownloadingOfflineEditor False]"
    by (rule new_events_append)
  moreover have "events w2 = events w @ [SetDownloadingOfflineEditor True, OnDownloadEditorStart] @ evs"
    using evs(1) by (simp add: step_defs)
  moreover have "files w' = files w2" by (simp add: w' step_defs)
  ultimately show ?thesis using run r evs(2) by blast
qed

lemma check_begin_frame:
  "files (checkForComponentUpdate_begin item w) = files w \<and>
   downloadingOfflineEditor (checkForComponentUpdate_begin item w) = downloadingOfflineEditor w \<and>
   url (checkForComponentUpdate_begin item w) = url w \<and>
   offlineUrl (checkForComponentUpdate_begin item w) = offlineUrl w \<and>
   loadedOnce (checkForComponentUpdate_begin item w) = loadedOnce w \<and>
   timeoutRef (checkForComponentUpdate_begin item w) = timeoutRef w \<and>
   readAccessUrl (checkForComponentUpdate_begin item w) = readAccessUrl w \<and>
   (\<exists>evs. events (checkForComponentUpdate_begin item w) = events w @ evs \<and>
      (\<forall>e \<in> set evs. \<exists>u. e = Fetch u))"
  by (simp add: checkForComponentUpdate_begin_def log_event_def split: option.splits)

lemma before_download_frame:
  "files (before_download h item w) = files w \<and>
   downloadingOfflineEditor (before_download h item w) = downloadingOfflineEditor w \<and>
   url (before_download h item w) = url w \<and>
   offlineUrl (before_download h item w) = offlineUrl w \<and>
   loadedOnce (before_download h item w) = loadedOnce w \<and>
   timeoutRef (before_download h item w) = timeoutRef w \<and>
   (\<exists>evs. events (before_download h item w) = events w @ evs \<and> (\<forall>e \<in> set evs. \<exists>u. e = Fetch u))"
  using check_begin_frame [of item "w\<lparr>readAccessUrl := versionDir h (package_info item)\<rparr>"]
  by (simp add: before_download_def)

lemma before_download_events:
  "\<exists>evs. events (before_download h item w) = events w @ evs \<and> (\<forall>e \<in> set evs. \<exists>u. e = Fetch u)"
  using before_download_frame by blast

lemma shouldDownload_absent_or_empty:
  assumes "\<not> downloadingOfflineEditor w"
    and "\<not> RNFS_exists (files w) d \<or> RNFS_readDir (files w) d = Inr []"
  shows "shouldDownload (downloadingOfflineEditor w) (files w) d = Inr True"
  using assms by (auto simp: shouldDownload_def)

lemma shouldDownload_populated:
  assumes "RNFS_readDir (files w) d = Inr (x # xs)"
  shows "shouldDownload (downloadingOfflineEditor w) (files w) d = Inr False"
  using assms readDir_exists [OF assms] by (auto simp: shouldDownload_def)

lemma ensure_downloaded_cases:
  "ensure_downloaded h item w =
     (case shouldDownload (downloadingOfflineEditor w) (files w) (versionDir h (package_info item)) of
        Inl e \<Rightarrow> (Inl e, w\<lparr>readAccessUrl := versionDir h (package_info item)\<rparr>)
      | Inr should \<Rightarrow>
          if should then download_branch h (package_info item) (before_download h item w)
          else (Inr (), before_download h item w))"
  by (simp add: ensure_downloaded_def before_download_def split: sum.splits)

lemma ensure_downloaded_frame:
  assumes "ensure_downloaded h item w = (r, w')"
  shows "url w' = url w \<and> offlineUrl w' = offlineUrl w \<and> loadedOnce w' = loadedOnce w \<and>
         timeoutRef w' = timeoutRef w \<and>
         (\<exists>evs. events w' = events w @ evs \<and> OnLoadError \<notin> set evs)"
proof (cases "shouldDownload (downloadingOfflineEditor w) (files w) (versionDir h (package_info item))")
  case (Inl e)
  then show ?thesis using assms by (auto simp: ensure_downloaded_cases)
next
  case (Inr should)
  from before_download_frame [of h item w] obtain evs0 where
    p: "url (before_download h item w) = url w" "offlineUrl (before_download h item w) = offlineUrl w"
       "loadedOnce (before_download h item w) = loadedOnce w" "timeoutRef (before_download h item w) = timeoutRef w"
       "events (before_download h item w) = events w @ evs0" "\<forall>e \<in> set evs0. \<exists>u. e = Fetch u"
    by blast
  have n0: "OnLoadError \<notin> set evs0" using p(6) by auto
  show ?thesis
  proof (cases should)
    case False
    then show ?thesis using assms Inr p n0 by (auto simp: ensure_downloaded_cases)
  next
    case True
    then have run: "download_branch h (package_info item) (before_download h item w) = (r, w')"
      using assms Inr by (simp add: ensure_downloaded_cases)
    from download_branch_frame [OF run] obtain evs where
      e: "events w' = events (before_download h item w) @ evs"
         "\<forall>e \<in> set evs. is_fs_event e \<or> is_download_signal e"
      and fr: "url w' = url (before_download h item w)" "offlineUrl w' = offlineUrl (before_download h item w)"
        "loadedOnce w' = loadedOnce (before_download h item w)" "timeoutRef w' = timeoutRef (before_download h item w)"
      by blast
    have "OnLoadError \<notin> set evs" using e(2) by auto
    then have "events w' = events w @ (evs0 @ evs) \<and> OnLoadError \<notin> set (evs0 @ evs)"
      using e(1) p(5) n0 by simp
    then show ?thesis using fr p by metis
  qed
qed

lemma getOfflineEditorUrl_ensure:
  assumes "getOfflineEditorUrl h (Some item) w = (r, w')"
  shows "snd (ensure_downloaded h item w) = w' \<and>
         (\<forall>e. fst (ensure_downloaded h item w) = Inl e \<longrightarrow> r = Inl e) \<and>
         (fst (ensure_downloaded h item w) = Inr () \<longrightarrow>
            r = resolve_main h (files w') (versionDir h (package_info item)))"
  using assms
  by (cases "ensure_downloaded h item w")
     (auto simp: getOfflineEditorUrl_def then_do_def split: sum.splits)

lemma populated_run:
  assumes "RNFS_readDir (files w) (versionDir h (package_info item)) = Inr (x # xs)"
  shows "getOfflineEditorUrl h (Some item) w =
           (resolve_main h (files w) (versionDir h (package_info item)), before_download h item w)"
proof -
  have "shouldDownload (downloadingOfflineEditor w) (files w) (versionDir h (package_info item)) = Inr False"
    using assms by (rule shouldDownload_populated)
  then have "ensure_downloaded h item w = (Inr (), before_download h item w)"
    by (simp add: ensure_downloaded_cases)
  then show ?thesis
    using before_download_frame [of h item w] by (simp add: getOfflineEditorUrl_def then_do_def)
qed

subsection \<open>Runs on the sample installation\<close>

lemma sample_fields:
  "package_info sample_component = sample_package"
  "uuid sample_component = ''c1''"
  "download_url sample_package = ''https://x/e.zip''"
  "files (sample_world fs) = fs"
  "events (sample_world fs) = []"
  "downloadingOfflineEditor (sample_world fs) = False"
  "offlineUrl (sample_world fs) = []"
  "url (sample_world fs) = []"
  "loadedOnce (sample_world fs) = True"
  by (simp_all add: sample_component_def sample_package_def sample_world_def)

lemma sample_paths:
  "versionDir sample_host sample_package = ''/ext/editors/e/1''"
  "editorDir sample_host sample_package = ''/ext/editors/e''"
  "downloadPath sample_host sample_package = ''/ext/e.zip''"
  "versionDir sample_host_offline sample_package = ''/ext/editors/e/1''"
  "editorDir sample_host_offline sample_package = ''/ext/editors/e''"
  "downloadPath sample_host_offline sample_package = ''/ext/e.zip''"
  by (simp_all add: versionDir_def editorDir_def downloadPath_def basePath_def sample_defs)

lemma sample_paths_v2:
  "package_info sample_component_v2 = sample_package\<lparr>version := ''2''\<rparr>"
  "download_url (sample_package\<lparr>version := ''2''\<rparr>) = ''https://x/e.zip''"
  "versionDir sample_host (sample_package\<lparr>version := ''2''\<rparr>) = ''/ext/editors/e/2''"
  "editorDir sample_host (sample_package\<lparr>version := ''2''\<rparr>) = ''/ext/editors/e''"
  "downloadPath sample_host (sample_package\<lparr>version := ''2''\<rparr>) = ''/ext/e.zip''"
  by (simp_all add: versionDir_def editorDir_def downloadPath_def basePath_def sample_defs
        sample_component_v2_def)

lemma sample_listing:
  "RNFS_readDir files_installed ''/ext/editors/e/1'' = Inr [''/ext/editors/e/1/pkg'']"
  "RNFS_readDir files_without_main ''/ext/editors/e/1'' = Inr [''/ext/editors/e/1/pkg'']"
  "RNFS_readFile files_installed ''/ext/editors/e/1/pkg/package.json'' = Inr ''{}''"
  "RNFS_readFile files_without_main ''/ext/editors/e/1/pkg/package.json'' = Inr ''{}''"
  "JSON_parse sample_host ''{}'' = Some (JObj [])"
  "RNFS_exists files_installed ''/ext/editors/e/1/pkg/index.html''"
  "\<not> RNFS_exists files_without_main ''/ext/editors/e/1/pkg/index.html''"
  by (simp_all add: RNFS_readDir_def RNFS_readFile_def RNFS_exists_def is_child_def
        files_installed_def files_without_main_def sample_host_def)

lemma sample_upgrade:
  "getOfflineEditorUrl sample_host (Some sample_component) (sample_world files_old_version) =
  (Inr ''file:///ext/editors/e/1/pkg/index.html'',
  \<lparr>files = files_installed,
     url = [], offlineUrl = [], readAccessUrl = ''/ext/editors/e/1'',
     downloadingOfflineEditor = False, loadedOnce = True, timeoutRef = None,
     events =
       [Fetch ''https://x/latest.json'', SetDownloadingOfflineEditor True,
        OnDownloadEditorStart, FsUnlink ''/ext/editors/e'',
        FsDownloadFile ''https://x/e.zip'' ''/ext/e.zip'',
        Unzip ''/ext/e.zip'' ''/ext/editors/e/1'', FsUnlink ''/ext/e.zip'',
        OnDownloadEditorEnd, SetDownloadingOfflineEditor False]\<rparr>)"
  by (simp add: run_defs sample_defs Let_def)

lemma sample_second_upgrade:
  "getOfflineEditorUrl sample_host (Some sample_component_v2) (sample_world files_installed) =
  (Inr ''file:///ext/editors/e/2/pkg/index.html'',
  \<lparr>files =
     [(''/ext/editors/e'', Dir), (''/ext/editors/e/2'', Dir), (''/ext/editors/e/2/pkg'', Dir),
      (''/ext/editors/e/2/pkg/package.json'', File ''{}''),
      (''/ext/editors/e/2/pkg/index.html'', File ''<html>''),
      (''/ext'', Dir), (''/ext/editors'', Dir)],
     url = [], offlineUrl = [], readAccessUrl = ''/ext/editors/e/2'',
     downloadingOfflineEditor = False, loadedOnce = True, timeoutRef = None,
     events =
       [Fetch ''https://x/latest.json'', SetDownloadingOfflineEditor True,
        OnDownloadEditorStart, FsUnlink ''/ext/editors/e'',
        FsDownloadFile ''https://x/e.zip'' ''/ext/e.zip'',
        Unzip ''/ext/e.zip'' ''/ext/editors/e/2'', FsUnlink ''/ext/e.zip'',
        OnDownloadEditorEnd, SetDownloadingOfflineEditor False]\<rparr>)"
  by (simp add: run_defs sample_defs sample_component_v2_def Let_def)

lemma sample_failed_download:
  "getOfflineEditorUrl sample_host_offline (Some sample_component) (sample_world files_old_version) =
  (Inl (NetworkError ''https://x/e.zip''),
  \<lparr>files = [(''/ext'', Dir), (''/ext/editors'', Dir)], url = [], offlineUrl = [],
     readAccessUrl = ''/ext/editors/e/1'', downloadingOfflineEditor = False,
     loadedOnce = True, timeoutRef = None,
     events =
       [Fetch ''https://x/latest.json'', SetDownloadingOfflineEditor True,
        OnDownloadEditorStart, FsUnlink ''/ext/editors/e'',
        FsDownloadFile ''https://x/e.zip'' ''/ext/e.zip'',
        OnDownloadEditorEnd, SetDownloadingOfflineEditor False]\<rparr>)"
  by (simp add: run_defs sample_defs Let_def)

lemma sample_installed:
  "getOfflineEditorUrl sample_host (Some sample_component) (sample_world files_installed) =
  (Inr ''file:///ext/editors/e/1/pkg/index.html'',
  \<lparr>files = files_installed,
     url = [], offlineUrl = [], readAccessUrl = ''/ext/editors/e/1'',
     downloadingOfflineEditor = False, loadedOnce = True, timeoutRef = None,
     events = [Fetch ''https://x/latest.json'']\<rparr>)"
  by (simp add: run_defs sample_defs Let_def)

lemma sample_already_downloading:
  "getOfflineEditorUrl sample_host (Some sample_component)
     ((sample_world files_old_version)\<lparr>downloadingOfflineEditor := True\<rparr>) =
  (Inl (FsError ''/ext/editors/e/1''),
  \<lparr>files = files_old_version,
     url = [], offlineUrl = [], readAccessUrl = ''/ext/editors/e/1'',
     downloadingOfflineEditor = True, loadedOnce = True, timeoutRef = None,
     events = [Fetch ''https://x/latest.json'']\<rparr>)"
  by (simp add: run_defs sample_defs Let_def)

lemma sample_installed_ensure:
  "ensure_downloaded sample_host sample_component (sample_world files_installed) =
     (Inr (), \<lparr>files = files_installed,
     url = [], offlineUrl = [], readAccessUrl = ''/ext/editors/e/1'',
     downloadingOfflineEditor = False, loadedOnce = True, timeoutRef = None,
     events = [Fetch ''https://x/latest.json'']\<rparr>)"
  by (simp add: run_defs sample_defs Let_def)

lemma sample_without_main:
  "ensure_downloaded sample_host sample_component (sample_world files_without_main) =
     (Inr (), \<lparr>files = files_without_main,
     url = [], offlineUrl = [], readAccessUrl = ''/ext/editors/e/1'',
     downloadingOfflineEditor = False, loadedOnce = True, timeoutRef = None,
     events = [Fetch ''https://x/latest.json'']\<rparr>)"
  by (simp add: run_defs sample_defs files_without_main_def Let_def)

subsection \<open>The download branch always ends\<close>

text \<open>
  Claim C10. When offline resolution enters the download branch, the flag is set and
  \<^verbatim>\<open>onDownloadEditorStart\<close> is called, then \<^verbatim>\<open>onDownloadEditorEnd\<close> is called and the flag
  is reset, each exactly once and in this order, whatever the steps in between do; the
  flag is false afterwards; and an error thrown by a step of the \<^verbatim>\<open>try\<close> block (the
  deletion, the download, the unpacking) is the error the caller gets.
\<close>

theorem download_branch_cleanup:
  assumes "shouldDownload (downloadingOfflineEditor w) (files w) (versionDir h (package_info item)) = Inr True"
    and "getOfflineEditorUrl h (Some item) w = (r, w')"
  shows "filter is_download_signal (new_events w w') =
           [SetDownloadingOfflineEditor True, OnDownloadEditorStart,
            OnDownloadEditorEnd, SetDownloadingOfflineEditor False] \<and>
         downloadingOfflineEditor w' = False \<and>
         (\<forall>e. fst (download_steps h (package_info item)
                  (log_event OnDownloadEditorStart
                     (setDownloadingOfflineEditor True (before_download h item w)))) = Inl e
              \<longrightarrow> r = Inl e)"
proof -
  have ens: "ensure_downloaded h item w = download_branch h (package_info item) (before_download h item w)"
    using assms(1) by (simp add: ensure_downloaded_cases)
  have w': "snd (ensure_downloaded h item w) = w'"
    and err: "\<forall>e. fst (ensure_downloaded h item w) = Inl e \<longrightarrow> r = Inl e"
    using getOfflineEditorUrl_ensure [OF assms(2)] by simp_all
  have run: "download_branch h (package_info item) (before_download h item w) =
      (fst (ensure_downloaded h item w), w')"
    using ens w' by (metis prod.collapse)
  from download_branch_signals [OF run]
  have sig: "filter is_download_signal (new_events (before_download h item w) w') =
           [SetDownloadingOfflineEditor True, OnDownloadEditorStart,
            OnDownloadEditorEnd, SetDownloadingOfflineEditor False]"
    and flag: "downloadingOfflineEditor w' = False"
    and res: "fst (ensure_downloaded h item w) = fst (download_steps h (package_info item)
                (log_event OnDownloadEditorStart (setDownloadingOfflineEditor True (before_download h item w))))"
    by simp_all
  obtain evs0 where e0: "events (before_download h item w) = events w @ evs0" "\<forall>e \<in> set evs0. \<exists>u. e = Fetch u"
    using before_download_events by blast
  have "\<exists>evs. events w' = events (before_download h item w) @ evs"
    using download_branch_frame [OF run] by blast
  with e0(1) have "new_events w w' = evs0 @ new_events (before_download h item w) w'"
    by (rule new_events_trans)
  then have "filter is_download_signal (new_events w w') =
           [SetDownloadingOfflineEditor True, OnDownloadEditorStart,
            OnDownloadEditorEnd, SetDownloadingOfflineEditor False]"
    using sig fetch_filters(1) [OF e0(2)] by simp
  then show ?thesis using flag err res by simp
qed

theorem download_branch_cleanup_witness:
  "shouldDownload (downloadingOfflineEditor (sample_world files_old_version))
      (files (sample_world files_old_version))
      (versionDir sample_host_offline (package_info sample_component)) = Inr True \<and>
   fst (download_steps sample_host_offline (package_info sample_component)
          (log_event OnDownloadEditorStart
             (setDownloadingOfflineEditor True
                (before_download sample_host_offline sample_component
                   (sample_world files_old_version))))) =
      Inl (NetworkError ''https://x/e.zip'') \<and>
   fst (getOfflineEditorUrl sample_host_offline (Some sample_component) (sample_world files_old_version)) =
      Inl (NetworkError ''https://x/e.zip'') \<and>
   filter is_download_signal (new_events (sample_world files_old_version)
      (snd (getOfflineEditorUrl sample_host_offline (Some sample_component) (sample_world files_old_version)))) =
      [SetDownloadingOfflineEditor True, OnDownloadEditorStart,
       OnDownloadEditorEnd, SetDownloadingOfflineEditor False] \<and>
   filter is_download_signal (new_events (sample_world files_old_version)
      (snd (getOfflineEditorUrl sample_host (Some sample_component) (sample_world files_old_version)))) =
      [SetDownloadingOfflineEditor True, OnDownloadEditorStart,
       OnDownloadEditorEnd, SetDownloadingOfflineEditor False]"
proof -
  have sd: "shouldDownload (downloadingOfflineEditor (sample_world files_old_version))
      (files (sample_world files_old_version))
      (versionDir sample_host_offline (package_info sample_component)) = Inr True"
    by (simp add: sample_fields sample_paths shouldDownload_def RNFS_exists_def files_old_version_def)
  have sd': "shouldDownload (downloadingOfflineEditor (sample_world files_old_version))
      (files (sample_world files_old_version))
      (versionDir sample_host (package_info sample_component)) = Inr True"
    by (simp add: sample_fields sample_paths shouldDownload_def RNFS_exists_def files_old_version_def)
  have st: "fst (download_steps sample_host_offline (package_info sample_component)
          (log_event OnDownloadEditorStart
             (setDownloadingOfflineEditor True
                (before_download sample_host_offline sample_component
                   (sample_world files_old_version))))) =
      Inl (NetworkError ''https://x/e.zip'')"
    by (simp add: run_defs before_download_def sample_defs Let_def)
  show ?thesis
    using sd st download_branch_cleanup [OF sd sample_failed_download]
      download_branch_cleanup [OF sd' sample_upgrade]
    by (simp add: sample_failed_download sample_upgrade)
qed

subsection \<open>Eviction of the previous version\<close>

text \<open>
  Claim C3, on the code: with the version directory absent and the directory of the
  previous version present, a call made while the flag \<^verbatim>\<open>downloadingOfflineEditor\<close> is set
  deletes nothing (and downloads nothing): the previous version stays.
\<close>

theorem stale_version_kept_while_downloading_counterexample:
  "\<not> RNFS_exists files_old_version (versionDir sample_host (package_info sample_component)) \<and>
   RNFS_exists files_old_version (editorDir sample_host (package_info sample_component)) \<and>
   FsUnlink (editorDir sample_host (package_info sample_component)) \<notin>
     set (events (snd (getOfflineEditorUrl sample_host (Some sample_component)
       ((sample_world files_old_version)\<lparr>downloadingOfflineEditor := True\<rparr>)))) \<and>
   RNFS_exists (files (snd (getOfflineEditorUrl sample_host (Some sample_component)
       ((sample_world files_old_version)\<lparr>downloadingOfflineEditor := True\<rparr>))))
     (editorDir sample_host (package_info sample_component) @ ''/0'')"
  by (simp add: sample_already_downloading sample_fields sample_paths)
     (simp add: RNFS_exists_def files_old_version_def)

text \<open>
  Claim C3, amended. For a call made with the flag \<^verbatim>\<open>downloadingOfflineEditor\<close> not set
  and the version directory absent or empty: the file operations are, in this order,
  the deletion of the editor directory if it exists, the download, the unpacking, the
  deletion of the archive, cut short at the first one that fails. So the download begins
  only after the deletion of an existing editor directory has succeeded, and once it has
  begun, whatever happens next, at or below a previously existing editor directory there
  is nothing but the new version directory, the directories leading to it and what lies
  below it: at most one version is retained. When download and unpacking succeed the
  deletion of the archive follows, and when the branch succeeds the archive is gone.
\<close>

theorem stale_version_deleted_before_download:
  assumes "\<not> downloadingOfflineEditor w"
    and "\<not> RNFS_exists (files w) (versionDir h (package_info item)) \<or>
         RNFS_readDir (files w) (versionDir h (package_info item)) = Inr []"
    and "getOfflineEditorUrl h (Some item) w = (r, w')"
  shows "filter is_fs_event (new_events w w') \<in>
           (\<lambda>rest. (if RNFS_exists (files w) (editorDir h (package_info item))
                     then [FsUnlink (editorDir h (package_info item))] else []) @ rest) `
           {[],
            [FsDownloadFile (download_url (package_info item)) (downloadPath h (package_info item))],
            [FsDownloadFile (download_url (package_info item)) (downloadPath h (package_info item)),
             Unzip (downloadPath h (package_info item)) (versionDir h (package_info item))],
            [FsDownloadFile (download_url (package_info item)) (downloadPath h (package_info item)),
             Unzip (downloadPath h (package_info item)) (versionDir h (package_info item)),
             FsUnlink (downloadPath h (package_info item))]} \<and>
         (FsDownloadFile (download_url (package_info item)) (downloadPath h (package_info item))
            \<in> set (new_events w w') \<longrightarrow>
          RNFS_exists (files w) (editorDir h (package_info item)) \<longrightarrow>
          unlink_error h (editorDir h (package_info item)) = None) \<and>
         (\<forall>a. download_result h (download_url (package_info item)) = Inr a \<and>
              snd (unzip_result h a) = None \<and>
              FsDownloadFile (download_url (package_info item)) (downloadPath h (package_info item))
                \<in> set (new_events w w')
            \<longrightarrow> filter is_fs_event (new_events w w') =
                 (if RNFS_exists (files w) (editorDir h (package_info item))
                  then [FsUnlink (editorDir h (package_info item))] else []) @
                 [FsDownloadFile (download_url (package_info item)) (downloadPath h (package_info item)),
                  Unzip (downloadPath h (package_info item)) (versionDir h (package_info item)),
                  FsUnlink (downloadPath h (package_info item))]) \<and>
         (fst (ensure_downloaded h item w) = Inr () \<longrightarrow>
            \<not> RNFS_exists (files w') (downloadPath h (package_info item))) \<and>
         (FsDownloadFile (download_url (package_info item)) (downloadPath h (package_info item))
            \<in> set (new_events w w') \<and>
          RNFS_exists (files w) (editorDir h (package_info item)) \<longrightarrow>
            one_version_below (editorDir h (package_info item)) (versionDir h (package_info item))
              (files w'))"
proof -
  let ?pkg = "package_info item"
  let ?w0 = "before_download h item w"
  let ?w1 = "log_event OnDownloadEditorStart (setDownloadingOfflineEditor True ?w0)"
  let ?D = "if RNFS_exists (files w) (editorDir h ?pkg) then [FsUnlink (editorDir h ?pkg)] else []"
  let ?Dl = "FsDownloadFile (download_url ?pkg) (downloadPath h ?pkg)"
  have sd: "shouldDownload (downloadingOfflineEditor w) (files w) (versionDir h ?pkg) = Inr True"
    using assms(1,2) by (rule shouldDownload_absent_or_empty)
  have ens: "ensure_downloaded h item w = download_branch h ?pkg ?w0"
    using sd by (simp add: ensure_downloaded_cases)
  have w': "snd (ensure_downloaded h item w) = w'"
    using getOfflineEditorUrl_ensure [OF assms(3)] by simp
  have run: "download_branch h ?pkg ?w0 = (fst (ensure_downloaded h item w), w')"
    using ens w' by (metis prod.collapse)
  from download_branch_fs_events [OF run] obtain w2 evs where
    steps: "download_steps h ?pkg ?w1 = (fst (ensure_downloaded h item w), w2)"
    and f2: "files w' = files w2"
    and e2: "events w2 = events ?w0 @ [SetDownloadingOfflineEditor True, OnDownloadEditorStart] @ evs"
    and fs: "\<forall>e \<in> set evs. is_fs_event e"
    and new0: "new_events ?w0 w' = [SetDownloadingOfflineEditor True, OnDownloadEditorStart] @ evs @
              [OnDownloadEditorEnd, SetDownloadingOfflineEditor False]"
    by blast
  have files1: "files ?w1 = files w"
    using before_download_frame [of h item w] by (simp add: step_defs)
  have ev1: "events ?w1 = events ?w0 @ [SetDownloadingOfflineEditor True, OnDownloadEditorStart]"
    by (simp add: step_defs)
  from download_steps_events [OF steps] obtain rest where
    r1: "events w2 = events ?w1 @ ?D @ rest"
    and r2: "rest \<in> {[], [?Dl],
             [?Dl, Unzip (downloadPath h ?pkg) (versionDir h ?pkg)],
             [?Dl, Unzip (downloadPath h ?pkg) (versionDir h ?pkg), FsUnlink (downloadPath h ?pkg)]}"
    and r3: "rest \<noteq> [] \<longrightarrow> RNFS_exists (files w) (editorDir h ?pkg) \<longrightarrow>
               unlink_error h (editorDir h ?pkg) = None"
    and r4: "\<forall>a. download_result h (download_url ?pkg) = Inr a \<and> snd (unzip_result h a) = None \<and> rest \<noteq> []
              \<longrightarrow> rest = [?Dl, Unzip (downloadPath h ?pkg) (versionDir h ?pkg),
                          FsUnlink (downloadPath h ?pkg)]"
    unfolding files1 by blast
  have evs: "evs = ?D @ rest"
    using r1 e2 ev1 by simp
  obtain evs0 where e0: "events ?w0 = events w @ evs0" "\<forall>e \<in> set evs0. \<exists>u. e = Fetch u"
    using before_download_events by blast
  have "\<exists>es. events w' = events ?w0 @ es"
    using download_branch_frame [OF run] by blast
  with e0(1) have new: "new_events w w' = evs0 @ new_events ?w0 w'"
    by (rule new_events_trans)
  have filt: "filter is_fs_event (new_events w w') = ?D @ rest"
    using fs fetch_filters(2) [OF e0(2)] by (simp add: new new0 evs)
  have mem: "?Dl \<in> set (new_events w w') \<longleftrightarrow> rest \<noteq> []"
  proof -
    have "?Dl \<in> set (new_events w w') \<longleftrightarrow> ?Dl \<in> set (filter is_fs_event (new_events w w'))"
      by simp
    also have "\<dots> \<longleftrightarrow> ?Dl \<in> set rest" unfolding filt by simp
    also have "\<dots> \<longleftrightarrow> rest \<noteq> []" using r2 by auto
    finally show ?thesis .
  qed
  have c1: "filter is_fs_event (new_events w w') \<in> (\<lambda>rest. ?D @ rest) `
           {[], [?Dl],
            [?Dl, Unzip (downloadPath h ?pkg) (versionDir h ?pkg)],
            [?Dl, Unzip (downloadPath h ?pkg) (versionDir h ?pkg), FsUnlink (downloadPath h ?pkg)]}"
    unfolding filt using r2 by (rule imageI)
  have c4: "fst (ensure_downloaded h item w) = Inr () \<longrightarrow>
            \<not> RNFS_exists (files w') (downloadPath h ?pkg)"
  proof
    assume "fst (ensure_downloaded h item w) = Inr ()"
    then have "download_steps h ?pkg ?w1 = (Inr (), w2)" using steps by simp
    from download_steps_archive [OF this]
    show "\<not> RNFS_exists (files w') (downloadPath h ?pkg)"
      unfolding f2 .
  qed
  have c5: "?Dl \<in> set (new_events w w') \<and> RNFS_exists (files w) (editorDir h ?pkg) \<longrightarrow>
            one_version_below (editorDir h ?pkg) (versionDir h ?pkg) (files w')"
  proof
    assume a: "?Dl \<in> set (new_events w w') \<and> RNFS_exists (files w) (editorDir h ?pkg)"
    then have ex: "RNFS_exists (files ?w1) (editorDir h ?pkg)" by (simp add: files1)
    have "unlink_error h (editorDir h ?pkg) = None" using a r3 mem by blast
    with steps ex show "one_version_below (editorDir h ?pkg) (versionDir h ?pkg) (files w')"
      unfolding f2 by (rule download_steps_retains)
  qed
  show ?thesis
    using c1 c4 c5 r3 r4 unfolding mem filt by blast
qed

theorem stale_version_deleted_before_download_witness:
  "\<not> downloadingOfflineEditor (sample_world files_old_version) \<and>
   \<not> RNFS_exists (files (sample_world files_old_version))
        (versionDir sample_host (package_info sample_component)) \<and>
   RNFS_exists (files (sample_world files_old_version))
        (editorDir sample_host (package_info sample_component)) \<and>
   download_result sample_host (download_url (package_info sample_component)) = Inr ''PK'' \<and>
   snd (unzip_result sample_host ''PK'') = None \<and>
   fst (ensure_downloaded sample_host sample_component (sample_world files_old_version)) = Inr () \<and>
   FsDownloadFile (download_url (package_info sample_component))
       (downloadPath sample_host (package_info sample_component))
     \<in> set (new_events (sample_world files_old_version)
         (snd (getOfflineEditorUrl sample_host (Some sample_component) (sample_world files_old_version)))) \<and>
   filter is_fs_event (new_events (sample_world files_old_version)
      (snd (getOfflineEditorUrl sample_host (Some sample_component) (sample_world files_old_version)))) =
     [FsUnlink ''/ext/editors/e'', FsDownloadFile ''https://x/e.zip'' ''/ext/e.zip'',
      Unzip ''/ext/e.zip'' ''/ext/editors/e/1'', FsUnlink ''/ext/e.zip''] \<and>
   \<not> RNFS_exists
      (files (snd (getOfflineEditorUrl sample_host (Some sample_component) (sample_world files_old_version))))
      ''/ext/e.zip'' \<and>
   one_version_below ''/ext/editors/e'' ''/ext/editors/e/1''
      (files (snd (getOfflineEditorUrl sample_host (Some sample_component) (sample_world files_old_version)))) \<and>
   \<not> RNFS_exists
      (files (snd (getOfflineEditorUrl sample_host (Some sample_component) (sample_world files_old_version))))
      ''/ext/editors/e/0'' \<and>
   RNFS_exists (files (sample_world files_installed))
        (editorDir sample_host (package_info sample_component_v2)) \<and>
   filter is_fs_event (new_events (sample_world files_installed)
      (snd (getOfflineEditorUrl sample_host (Some sample_component_v2) (sample_world files_installed)))) =
     [FsUnlink ''/ext/editors/e'', FsDownloadFile ''https://x/e.zip'' ''/ext/e.zip'',
      Unzip ''/ext/e.zip'' ''/ext/editors/e/2'', FsUnlink ''/ext/e.zip''] \<and>
   \<not> RNFS_exists
      (files (snd (getOfflineEditorUrl sample_host (Some sample_component_v2) (sample_world files_installed))))
      ''/ext/editors/e/1''"
proof -
  let ?w = "sample_world files_old_version"
  let ?run = "getOfflineEditorUrl sample_host (Some sample_component) ?w"
  let ?v = "sample_world files_installed"
  let ?run2 = "getOfflineEditorUrl sample_host (Some sample_component_v2) ?v"
  have h1: "\<not> downloadingOfflineEditor ?w" and k1: "\<not> downloadingOfflineEditor ?v"
    by (simp_all add: sample_fields)
  have h2: "\<not> RNFS_exists (files ?w) (versionDir sample_host (package_info sample_component)) \<or>
         RNFS_readDir (files ?w) (versionDir sample_host (package_info sample_component)) = Inr []"
    by (simp add: sample_fields sample_paths RNFS_exists_def files_old_version_def)
  have k2: "\<not> RNFS_exists (files ?v) (versionDir sample_host (package_info sample_component_v2)) \<or>
         RNFS_readDir (files ?v) (versionDir sample_host (package_info sample_component_v2)) = Inr []"
    by (simp add: sample_fields sample_paths_v2 RNFS_exists_def files_installed_def)
  have h3: "?run = (fst ?run, snd ?run)" and k3: "?run2 = (fst ?run2, snd ?run2)" by simp_all
  note T = stale_version_deleted_before_download [OF h1 h2 h3]
  note U = stale_version_deleted_before_download [OF k1 k2 k3]
  have ex: "RNFS_exists (files ?w) (editorDir sample_host (package_info sample_component))"
    by (simp add: sample_fields sample_paths RNFS_exists_def files_old_version_def)
  have ex2: "RNFS_exists (files ?v) (editorDir sample_host (package_info sample_component_v2))"
    by (simp add: sample_fields sample_paths_v2 RNFS_exists_def files_installed_def)
  have dl: "download_result sample_host (download_url (package_info sample_component)) = Inr ''PK''"
    "download_result sample_host (download_url (package_info sample_component_v2)) = Inr ''PK''"
    "snd (unzip_result sample_host ''PK'') = None"
    by (simp_all add: sample_fields sample_paths_v2 sample_host_def)
  have ok: "fst (ensure_downloaded sample_host sample_component ?w) = Inr ()"
    by (simp add: run_defs sample_defs Let_def)
  have began: "FsDownloadFile (download_url (package_info sample_component))
       (downloadPath sample_host (package_info sample_component)) \<in> set (new_events ?w (snd ?run))"
    by (simp add: sample_upgrade new_events_def sample_fields sample_paths)
  have began2: "FsDownloadFile (download_url (package_info sample_component_v2))
       (downloadPath sample_host (package_info sample_component_v2)) \<in> set (new_events ?v (snd ?run2))"
    by (simp add: sample_second_upgrade new_events_def sample_fields sample_paths_v2)
  have seq: "filter is_fs_event (new_events ?w (snd ?run)) =
     [FsUnlink ''/ext/editors/e'', FsDownloadFile ''https://x/e.zip'' ''/ext/e.zip'',
      Unzip ''/ext/e.zip'' ''/ext/editors/e/1'', FsUnlink ''/ext/e.zip'']"
    using T dl began ex
    by (simp add: sample_fields sample_paths)
  have seq2: "filter is_fs_event (new_events ?v (snd ?run2)) =
     [FsUnlink ''/ext/editors/e'', FsDownloadFile ''https://x/e.zip'' ''/ext/e.zip'',
      Unzip ''/ext/e.zip'' ''/ext/editors/e/2'', FsUnlink ''/ext/e.zip'']"
    using U dl began2 ex2
    by (simp add: sample_fields sample_paths_v2)
  have zip: "\<not> RNFS_exists (files (snd ?run)) (downloadPath sample_host (package_info sample_component))"
    using T ok by blast
  have only: "one_version_below (editorDir sample_host (package_info sample_component))
      (versionDir sample_host (package_info sample_component)) (files (snd ?run))"
    using T began ex by blast
  have only2: "one_version_below (editorDir sample_host (package_info sample_component_v2))
      (versionDir sample_host (package_info sample_component_v2)) (files (snd ?run2))"
    using U began2 ex2 by blast
  have zip': "\<not> RNFS_exists (files (snd ?run)) ''/ext/e.zip''"
    using zip by (simp add: sample_fields sample_paths)
  have only': "one_version_below ''/ext/editors/e'' ''/ext/editors/e/1'' (files (snd ?run))"
    using only by (simp add: sample_fields sample_paths)
  have "at_or_below ''/ext/editors/e'' ''/ext/editors/e/0''"
    "\<not> at_or_below ''/ext/editors/e/0'' ''/ext/editors/e/1''"
    "\<not> at_or_below ''/ext/editors/e/1'' ''/ext/editors/e/0''"
    by (simp_all add: at_or_below_def)
  then have old: "\<not> RNFS_exists (files (snd ?run)) ''/ext/editors/e/0''"
    using only' by (auto simp: one_version_below_def exists_iff)
  have "at_or_below ''/ext/editors/e'' ''/ext/editors/e/1''"
    "\<not> at_or_below ''/ext/editors/e/1'' ''/ext/editors/e/2''"
    "\<not> at_or_below ''/ext/editors/e/2'' ''/ext/editors/e/1''"
    by (simp_all add: at_or_below_def)
  then have old2: "\<not> RNFS_exists (files (snd ?run2)) ''/ext/editors/e/1''"
    using only2 by (auto simp: one_version_below_def exists_iff sample_fields sample_paths_v2)
  show ?thesis using h1 h2 ex ex2 dl ok began seq seq2 zip' only' old old2
    by (simp add: sample_fields sample_paths RNFS_exists_def files_old_version_def)
qed

subsection \<open>Reuse of a populated version directory\<close>

text \<open>
  Claim C4. When the version directory exists and is not empty, offline resolution
  downloads, unpacks and deletes nothing and signals no download; its result is the
  resolution of the main file on the files as they are, which it leaves unchanged; and a
  second call in the resulting world returns the same result and again leaves the files
  unchanged.
\<close>

theorem populated_version_dir_reused:
  assumes "RNFS_readDir (files w) (versionDir h (package_info item)) = Inr (x # xs)"
    and "getOfflineEditorUrl h (Some item) w = (r, w')"
  shows "r = resolve_main h (files w) (versionDir h (package_info item)) \<and>
         files w' = files w \<and>
         filter is_fs_event (new_events w w') = [] \<and>
         filter is_download_signal (new_events w w') = [] \<and>
         fst (getOfflineEditorUrl h (Some item) w') = r \<and>
         files (snd (getOfflineEditorUrl h (Some item) w')) = files w"
proof -
  have r: "r = resolve_main h (files w) (versionDir h (package_info item))" and w': "w' = before_download h item w"
    using populated_run [OF assms(1)] assms(2) by simp_all
  have f: "files w' = files w" using before_download_frame [of h item w] by (simp add: w')
  obtain evs0 where e0: "events w' = events w @ evs0" "\<forall>e \<in> set evs0. \<exists>u. e = Fetch u"
    using before_download_events unfolding w' by blast
  have new: "new_events w w' = evs0" using e0(1) by (rule new_events_append)
  have again: "RNFS_readDir (files w') (versionDir h (package_info item)) = Inr (x # xs)"
    using assms(1) f by simp
  have second: "getOfflineEditorUrl h (Some item) w' =
           (resolve_main h (files w') (versionDir h (package_info item)), before_download h item w')"
    using again by (rule populated_run)
  have "files (before_download h item w') = files w'" using before_download_frame [of h item w'] by simp
  then show ?thesis
    using r f fetch_filters [OF e0(2)] by (simp add: new second)
qed

theorem populated_version_dir_reused_witness:
  "RNFS_readDir (files (sample_world files_installed))
      (versionDir sample_host (package_info sample_component)) = Inr [''/ext/editors/e/1/pkg''] \<and>
   fst (getOfflineEditorUrl sample_host (Some sample_component) (sample_world files_installed)) =
      Inr ''file:///ext/editors/e/1/pkg/index.html'' \<and>
   fst (getOfflineEditorUrl sample_host (Some sample_component)
         (snd (getOfflineEditorUrl sample_host (Some sample_component) (sample_world files_installed)))) =
      Inr ''file:///ext/editors/e/1/pkg/index.html'' \<and>
   files (snd (getOfflineEditorUrl sample_host (Some sample_component)
         (snd (getOfflineEditorUrl sample_host (Some sample_component) (sample_world files_installed))))) =
      files_installed"
proof -
  have h: "RNFS_readDir (files (sample_world files_installed))
      (versionDir sample_host (package_info sample_component)) = Inr [''/ext/editors/e/1/pkg'']"
    by (simp add: sample_fields sample_paths sample_listing)
  show ?thesis
    using h populated_version_dir_reused [OF h sample_installed]
    by (simp add: sample_installed sample_fields)
qed

subsection \<open>The main file\<close>

text \<open>
  Once the version directory is in place (the first part of the resolution did not throw)
  and the manifest of its first entry parses: when the manifest gives no main file
  (\<^verbatim>\<open>sn.main\<close> is missing, or falsy), the main file is \<open>index.html\<close> and the result is
  its \<open>file://\<close> URL if it exists and the empty string if not; and whenever the main file
  does not exist, the result is the empty string, not an error.
\<close>

lemma main_file_default_and_missing:
  assumes "ensure_downloaded h item w = (Inr (), w')"
    and "RNFS_readDir (files w') (versionDir h (package_info item)) = Inr (first # rest)"
    and "RNFS_readFile (files w') (first @ ''/package.json'') = Inr content"
    and "JSON_parse h content = Some packageJson"
  shows "(\<not> truthy (get_prop (get_prop (Some packageJson) ''sn'') ''main'') \<longrightarrow>
            mainFileName h packageJson = ''index.html'' \<and>
            getOfflineEditorUrl h (Some item) w =
              ((if RNFS_exists (files w') (first @ ''/index.html'')
                then Inr (''file://'' @ first @ ''/index.html'') else Inr []), w')) \<and>
         (\<not> RNFS_exists (files w') (first @ ''/'' @ mainFileName h packageJson) \<longrightarrow>
            getOfflineEditorUrl h (Some item) w = (Inr [], w'))"
proof -
  have run: "getOfflineEditorUrl h (Some item) w =
      (resolve_main h (files w') (versionDir h (package_info item)), w')"
    using assms(1) by (simp add: getOfflineEditorUrl_def then_do_def)
  have res: "resolve_main h (files w') (versionDir h (package_info item)) =
      (if RNFS_exists (files w') (first @ ''/'' @ mainFileName h packageJson)
       then Inr (''file://'' @ first @ ''/'' @ mainFileName h packageJson) else Inr [])"
    using assms(2,3,4) by (simp add: resolve_main_def)
  have dflt: "\<not> truthy (get_prop (get_prop (Some packageJson) ''sn'') ''main'') \<Longrightarrow>
      mainFileName h packageJson = ''index.html''"
    by (simp add: mainFileName_def Let_def)
  show ?thesis using run res dflt by auto
qed

lemma main_file_default_and_missing_sample:
  "fst (ensure_downloaded sample_host sample_component (sample_world files_installed)) = Inr () \<and>
   \<not> truthy (get_prop (get_prop (Some (JObj [])) ''sn'') ''main'') \<and>
   fst (getOfflineEditorUrl sample_host (Some sample_component) (sample_world files_installed)) =
      Inr ''file:///ext/editors/e/1/pkg/index.html'' \<and>
   fst (ensure_downloaded sample_host sample_component (sample_world files_without_main)) = Inr () \<and>
   \<not> RNFS_exists files_without_main (''/ext/editors/e/1/pkg'' @ ''/'' @ mainFileName sample_host (JObj [])) \<and>
   fst (getOfflineEditorUrl sample_host (Some sample_component) (sample_world files_without_main)) = Inr []"
proof -
  let ?W = "\<lambda>fs. \<lparr>files = fs, url = [], offlineUrl = [], readAccessUrl = ''/ext/editors/e/1'',
     downloadingOfflineEditor = False, loadedOnce = True, timeoutRef = None,
     events = [Fetch ''https://x/latest.json'']\<rparr>"
  have nt: "\<not> truthy (get_prop (get_prop (Some (JObj [])) ''sn'') ''main'')" by simp
  have d1: "RNFS_readDir (files (?W files_installed)) (versionDir sample_host (package_info sample_component))
      = Inr [''/ext/editors/e/1/pkg'']"
    and d2: "RNFS_readDir (files (?W files_without_main)) (versionDir sample_host (package_info sample_component))
      = Inr [''/ext/editors/e/1/pkg'']"
    by (simp_all add: sample_fields sample_paths sample_listing)
  have f1: "RNFS_readFile (files (?W files_installed)) (''/ext/editors/e/1/pkg'' @ ''/package.json'') = Inr ''{}''"
    and f2: "RNFS_readFile (files (?W files_without_main)) (''/ext/editors/e/1/pkg'' @ ''/package.json'') = Inr ''{}''"
    by (simp_all add: sample_listing)
  have pj: "JSON_parse sample_host ''{}'' = Some (JObj [])" by (rule sample_listing)
  note A = main_file_default_and_missing [OF sample_installed_ensure d1 f1 pj]
  note B = main_file_default_and_missing [OF sample_without_main d2 f2 pj]
  have m: "mainFileName sample_host (JObj []) = ''index.html''"
    using A nt by blast
  have a: "fst (getOfflineEditorUrl sample_host (Some sample_component) (sample_world files_installed)) =
      Inr ''file:///ext/editors/e/1/pkg/index.html''"
    using A nt by (simp add: sample_listing)
  have missing: "\<not> RNFS_exists files_without_main
      (''/ext/editors/e/1/pkg'' @ ''/'' @ mainFileName sample_host (JObj []))"
    by (simp add: m sample_listing)
  then have b: "fst (getOfflineEditorUrl sample_host (Some sample_component) (sample_world files_without_main)) = Inr []"
    using B by simp
  show ?thesis using nt a b missing
    by (simp add: sample_installed_ensure sample_without_main)
qed

text \<open>
  Claim C5, on the code. With the package unpacked and its main file missing, offline
  resolution returns the empty string, and the effect stores it as the offline URL. The
  remote URL is set only when the resolution throws, so here \<^verbatim>\<open>url\<close> stays empty as well:
  no surface is rendered, nothing is loaded and nothing is signalled. The empty result
  does not trigger the remote fallback.
\<close>

theorem missing_main_file_no_remote_fallback:
  "\<not> RNFS_exists files_without_main ''/ext/editors/e/1/pkg/index.html'' \<and>
   fst (getOfflineEditorUrl sample_host (Some sample_component)
          ((sample_world files_without_main)\<lparr>loadedOnce := False\<rparr>)) = Inr [] \<and>
   url (setEditorUrl sample_host (Some ''https://remote'') False True sample_component
          ((sample_world files_without_main)\<lparr>loadedOnce := False\<rparr>)) = [] \<and>
   offlineUrl (setEditorUrl sample_host (Some ''https://remote'') False True sample_component
          ((sample_world files_without_main)\<lparr>loadedOnce := False\<rparr>)) = [] \<and>
   webview_rendered (setEditorUrl sample_host (Some ''https://remote'') False True sample_component
          ((sample_world files_without_main)\<lparr>loadedOnce := False\<rparr>)) = False \<and>
   webview_source (setEditorUrl sample_host (Some ''https://remote'') False True sample_component
          ((sample_world files_without_main)\<lparr>loadedOnce := False\<rparr>)) = None \<and>
   events (setEditorUrl sample_host (Some ''https://remote'') False True sample_component
          ((sample_world files_without_main)\<lparr>loadedOnce := False\<rparr>)) =
     [Fetch ''https://x/latest.json'']"
proof -
  have run: "getOfflineEditorUrl sample_host (Some sample_component)
          ((sample_world files_without_main)\<lparr>loadedOnce := False\<rparr>) =
     (Inr [], \<lparr>files = files_without_main,
       url = [], offlineUrl = [], readAccessUrl = ''/ext/editors/e/1'',
       downloadingOfflineEditor = False, loadedOnce = False, timeoutRef = None,
       events = [Fetch ''https://x/latest.json'']\<rparr>)"
    by (simp add: run_defs sample_defs files_without_main_def Let_def)
  show ?thesis
    by (simp add: setEditorUrl_def run webview_rendered_def webview_source_def sample_listing)
qed

subsection \<open>Failure of offline resolution\<close>

text \<open>
  Claim C6, on the code: when offline resolution throws after the effect has been cleaned
  up (\<^verbatim>\<open>mounted\<close> is false), the remote URL is not set and no load error is signalled,
  with or without offline-only mode.
\<close>

theorem setEditorUrl_unmounted_counterexample:
  "fst (getOfflineEditorUrl sample_host_offline (Some sample_component) (sample_world files_old_version)) =
      Inl (NetworkError ''https://x/e.zip'') \<and>
   url (setEditorUrl sample_host_offline (Some ''https://remote'') False False sample_component
          (sample_world files_old_version)) \<noteq> ''https://remote'' \<and>
   OnLoadError \<notin> set (events (setEditorUrl sample_host_offline (Some ''https://remote'') False False
          sample_component (sample_world files_old_version))) \<and>
   OnLoadError \<notin> set (events (setEditorUrl sample_host_offline (Some ''https://remote'') True False
          sample_component (sample_world files_old_version)))"
  by (simp add: setEditorUrl_def sample_failed_download)

text \<open>
  Claim C6, amended. When the component manager returns a URL and offline resolution
  throws: if the effect is still mounted and offline-only mode is off, the state
  \<^verbatim>\<open>url\<close> becomes the remote URL and no load error is signalled, and the remote URL is
  the source of the surface when no offline URL is held; if it is still mounted and
  offline-only mode is on, \<^verbatim>\<open>onLoadError\<close> is called exactly once and \<^verbatim>\<open>url\<close> is left as
  it was; if it is no longer mounted, nothing more happens.
\<close>

theorem setEditorUrl_offline_failure:
  assumes "u \<noteq> []" and "getOfflineEditorUrl h (Some item) w = (Inl e, w')"
  shows "(mounted \<and> \<not> offlineOnly \<longrightarrow>
            url (setEditorUrl h (Some u) offlineOnly mounted item w) = u \<and>
            OnLoadError \<notin> set (new_events w (setEditorUrl h (Some u) offlineOnly mounted item w)) \<and>
            (offlineUrl w = [] \<and> loadedOnce w \<longrightarrow>
               webview_source (setEditorUrl h (Some u) offlineOnly mounted item w) = Some u)) \<and>
         (mounted \<and> offlineOnly \<longrightarrow>
            url (setEditorUrl h (Some u) offlineOnly mounted item w) = url w \<and>
            filter (\<lambda>x. x = OnLoadError)
              (new_events w (setEditorUrl h (Some u) offlineOnly mounted item w)) = [OnLoadError]) \<and>
         (\<not> mounted \<longrightarrow>
            setEditorUrl h (Some u) offlineOnly mounted item w = w' \<and> url w' = url w \<and>
            OnLoadError \<notin> set (new_events w w'))"
proof -
  have w': "snd (ensure_downloaded h item w) = w'"
    using getOfflineEditorUrl_ensure [OF assms(2)] by simp
  from ensure_downloaded_frame [OF prod.collapse [symmetric], of h item w] obtain evs where
    fr: "url w' = url w" "offlineUrl w' = offlineUrl w" "loadedOnce w' = loadedOnce w"
        "timeoutRef w' = timeoutRef w" "events w' = events w @ evs" "OnLoadError \<notin> set evs"
    unfolding w' by blast
  have S: "setEditorUrl h (Some u) oo m item w =
        (if m then (if oo then onLoadErrorHandler w' else w'\<lparr>url := u\<rparr>) else w')" for oo m
    using assms by (simp add: setEditorUrl_def)
  have new1: "new_events w (w'\<lparr>url := u\<rparr>) = evs" "new_events w w' = evs"
    using fr(5) by simp_all
  have "\<exists>pre. events (onLoadErrorHandler w') = events w @ evs @ pre @ [OnLoadError] \<and>
          OnLoadError \<notin> set pre"
    using fr(5) by (auto simp: onLoadErrorHandler_def log_event_def split: option.splits)
  then obtain pre where pre: "events (onLoadErrorHandler w') = events w @ (evs @ pre @ [OnLoadError])"
    "OnLoadError \<notin> set pre" by auto
  have new2: "new_events w (onLoadErrorHandler w') = evs @ pre @ [OnLoadError]"
    using pre(1) by (rule new_events_append)
  have f0: "filter (\<lambda>x. x = OnLoadError) evs = []" "filter (\<lambda>x. x = OnLoadError) pre = []"
    using fr(6) pre(2) by (auto simp: filter_empty_conv)
  have u2: "url (onLoadErrorHandler w') = url w'"
    by (simp add: onLoadErrorHandler_def log_event_def split: option.splits)
  have a: "url (setEditorUrl h (Some u) False True item w) = u \<and>
            OnLoadError \<notin> set (new_events w (setEditorUrl h (Some u) False True item w)) \<and>
            (offlineUrl w = [] \<and> loadedOnce w \<longrightarrow>
               webview_source (setEditorUrl h (Some u) False True item w) = Some u)"
    using fr new1 by (simp add: S webview_source_def)
  have b: "url (setEditorUrl h (Some u) True True item w) = url w \<and>
            filter (\<lambda>x. x = OnLoadError)
              (new_events w (setEditorUrl h (Some u) True True item w)) = [OnLoadError]"
    using fr new2 f0 u2 by (simp add: S)
  have c: "setEditorUrl h (Some u) offlineOnly False item w = w' \<and> url w' = url w \<and>
            OnLoadError \<notin> set (new_events w w')"
    using fr new1 by (simp add: S)
  show ?thesis
  proof (cases mounted)
    case False
    then show ?thesis using c by simp
  next
    case True
    then show ?thesis using a b by (cases offlineOnly) simp_all
  qed
qed

theorem setEditorUrl_offline_failure_witness:
  "''https://remote'' \<noteq> [] \<and>
   fst (getOfflineEditorUrl sample_host_offline (Some sample_component) (sample_world files_old_version)) =
      Inl (NetworkError ''https://x/e.zip'') \<and>
   offlineUrl (sample_world files_old_version) = [] \<and> loadedOnce (sample_world files_old_version) \<and>
   url (setEditorUrl sample_host_offline (Some ''https://remote'') False True sample_component
          (sample_world files_old_version)) = ''https://remote'' \<and>
   webview_source (setEditorUrl sample_host_offline (Some ''https://remote'') False True sample_component
          (sample_world files_old_version)) = Some ''https://remote'' \<and>
   filter (\<lambda>x. x = OnLoadError) (new_events (sample_world files_old_version)
       (setEditorUrl sample_host_offline (Some ''https://remote'') True True sample_component
          (sample_world files_old_version))) = [OnLoadError] \<and>
   url (setEditorUrl sample_host_offline (Some ''https://remote'') True False sample_component
          (sample_world files_old_version)) = []"
proof -
  have n: "''https://remote'' \<noteq> []" by simp
  show ?thesis
    using setEditorUrl_offline_failure [OF n sample_failed_download, of False True]
      setEditorUrl_offline_failure [OF n sample_failed_download, of True True]
      setEditorUrl_offline_failure [OF n sample_failed_download, of True False]
    by (simp add: sample_failed_download sample_fields)
qed

subsection \<open>Navigation requests\<close>

text \<open>
  A request goes to the URL opener exactly when, on iOS, it is a click, or, on Android,
  its URL differs from the state \<^verbatim>\<open>url\<close>. A request for the loaded URL that is not a click
  is let through when the loaded URL is the remote one.
\<close>

lemma onShouldStartLoadWithRequest_redirects_iff:
  "fst (onShouldStartLoadWithRequest h req w) = False \<longleftrightarrow>
     (Platform_OS h = IOS \<and> request_navigationType req = Some Click) \<or>
     (Platform_OS h = Android \<and> request_url req \<noteq> url w)"
  by (simp add: onShouldStartLoadWithRequest_def)

lemma remote_initial_load_not_intercepted:
  assumes "offlineUrl w = []" and "webview_source w = Some u"
    and "request_url req = u" and "request_navigationType req \<noteq> Some Click"
  shows "onShouldStartLoadWithRequest h req w = (True, w)"
  using assms by (auto simp: onShouldStartLoadWithRequest_def webview_source_def split: if_splits)

text \<open>
  Claim C1, on the code. After a successful offline resolution the surface loads the
  offline URL while the state \<^verbatim>\<open>url\<close> is empty; on Android a request for that very URL
  differs from \<^verbatim>\<open>url\<close>, so it is sent to the URL opener and refused.
\<close>

theorem offline_editor_url_redirected_on_android:
  "Platform_OS sample_host = Android \<and>
   url (setEditorUrl sample_host (Some ''https://remote'') False True sample_component
          (sample_world files_installed)) = [] \<and>
   webview_source (setEditorUrl sample_host (Some ''https://remote'') False True sample_component
          (sample_world files_installed)) = Some ''file:///ext/editors/e/1/pkg/index.html'' \<and>
   fst (onShouldStartLoadWithRequest sample_host
     \<lparr>request_url = ''file:///ext/editors/e/1/pkg/index.html'', request_navigationType = None\<rparr>
     (setEditorUrl sample_host (Some ''https://remote'') False True sample_component
          (sample_world files_installed))) = False \<and>
   new_events
     (setEditorUrl sample_host (Some ''https://remote'') False True sample_component
          (sample_world files_installed))
     (snd (onShouldStartLoadWithRequest sample_host
       \<lparr>request_url = ''file:///ext/editors/e/1/pkg/index.html'', request_navigationType = None\<rparr>
       (setEditorUrl sample_host (Some ''https://remote'') False True sample_component
          (sample_world files_installed)))) = [OpenUrl ''file:///ext/editors/e/1/pkg/index.html'']"
  by (simp add: setEditorUrl_def sample_installed onShouldStartLoadWithRequest_def webview_source_def
        new_events_def log_event_def)
     (simp add: sample_host_def)

end
